theory Spec2Isabelle
  imports Complex_Main
begin

section \<open>The drift-diffusion notebook: simulator, decision extraction, histogram statistics\<close>

text \<open>
  The development embeds the code cells of
  \<^verbatim>\<open>module1/week3/project1_week3_parameter_inference.ipynb\<close>:
  \<^verbatim>\<open>simulator\<close>, \<^verbatim>\<open>find_rts_and_decisions\<close>, \<^verbatim>\<open>calculate_histogram_stats\<close> and
  \<^verbatim>\<open>rejection_abc\<close>.

  Conventions of the embedding.
  \<^item> Floating-point numbers are modelled as \<^typ>\<open>real\<close>: rounding is abstracted, the
    comparisons, signs, index computations and counts of the code are kept. NaN and
    infinities are not modelled.
  \<^item> A two-dimensional array is the list of its rows; the theorems that need the array
    to be rectangular assume it.
  \<^item> Every Python exception is a value \<open>Inl e\<close> of the result type.
  \<^item> In-place writes to an array are returned as the updated array.
\<close>

subsection \<open>Errors\<close>

datatype error =
    AssertionError
  | IndexError
  | ValueError
  | ZeroDivisionError
  | NameError
  | AttributeError
  | RuntimeError

type_synonym matrix = "real list list"

subsection \<open>The numpy operations used by the notebook\<close>

text \<open>\<^verbatim>\<open>abs(x) >= a\<close>, elementwise: the boolean mask of the entries at or beyond the
  decision threshold.\<close>

definition threshold_mask :: "real \<Rightarrow> matrix \<Rightarrow> bool list list" where
  "threshold_mask a X = map (map (\<lambda>x. a \<le> \<bar>x\<bar>)) X"

text \<open>\<^verbatim>\<open>mask.nonzero()\<close>: the (row, column) positions of the true entries in row-major
  order. The first argument is the index of the first row of the list.\<close>

fun nonzero :: "nat \<Rightarrow> bool list list \<Rightarrow> (nat \<times> nat) list" where
  "nonzero i [] = []"
| "nonzero i (r # rs) =
     map (Pair i) (filter (\<lambda>j. r ! j) [0..<length r]) @ nonzero (Suc i) rs"

text \<open>\<^verbatim>\<open>np.unique(xs)\<close>: the sorted distinct values; with \<^verbatim>\<open>return_index=True\<close> also the
  index of the first occurrence of each of them in \<open>xs\<close>.\<close>

definition np_unique :: "nat list \<Rightarrow> nat list" where
  "np_unique xs = sort (remdups xs)"

definition index_of :: "nat list \<Rightarrow> nat \<Rightarrow> nat" where
  "index_of xs u = length (takeWhile (\<lambda>x. x \<noteq> u) xs)"

definition np_unique_index :: "nat list \<Rightarrow> nat list" where
  "np_unique_index xs = map (index_of xs) (np_unique xs)"

subsection \<open>\<^verbatim>\<open>find_rts_and_decisions\<close>\<close>

text \<open>
  \<^verbatim>\<open>x_traces_param[undecided_idx, -1] = a * np.sign(x_traces_param[undecided_idx, -1])\<close>:
  in each listed row the last entry is replaced by \<open>a\<close> times its sign. Reading column
  \<open>-1\<close> of a row that does not exist or has no column raises IndexError; with an empty
  index list nothing is read or written.
\<close>

definition enforce_last :: "real \<Rightarrow> nat list \<Rightarrow> matrix \<Rightarrow> error + matrix" where
  "enforce_last a idx X =
     (if list_ex (\<lambda>i. length X \<le> i \<or> X ! i = []) idx then Inl IndexError
      else Inr (map (\<lambda>i. if i \<in> set idx
                            then (X ! i)[length (X ! i) - 1 := a * sgn (last (X ! i))]
                            else X ! i) [0..<length X]))"

text \<open>The body of the loop over parameters, on the slice \<open>X\<close> of one parameter. It
  returns the slice as written back, the reaction times and the decisions.\<close>

definition find_param :: "real \<Rightarrow> nat \<Rightarrow> real list \<Rightarrow> matrix \<Rightarrow> error + (matrix \<times> real list \<times> real list)" where
  "find_param a num_trials tspan X =
     (let rows = map fst (nonzero 0 (threshold_mask a X));
          unique_rows = np_unique rows;
          undecided_idx = filter (\<lambda>i. i \<notin> set unique_rows) [0..<num_trials]
      in case enforce_last a undecided_idx X of
           Inl e \<Rightarrow> Inl e
         | Inr X' \<Rightarrow>
             (let nz = nonzero 0 (threshold_mask a X');
                  rows = map fst nz;
                  cols = map snd nz;
                  unique_rows = np_unique rows;
                  trial_idx = np_unique_index rows;
                  decision_idx = map (\<lambda>t. cols ! t) trial_idx;
                  decisions_param = map (\<lambda>(r, c). sgn (X' ! r ! c)) (zip unique_rows decision_idx)
              in if list_ex (\<lambda>c. length tspan \<le> c) decision_idx then Inl IndexError
                 else Inr (X', map (\<lambda>c. tspan ! c) decision_idx, decisions_param)))"

text \<open>The loop \<^verbatim>\<open>for param_idx in range(num_parameters)\<close>. The slice
  \<^verbatim>\<open>x_traces[param_idx * num_trials : (param_idx + 1) * num_trials]\<close> is a view, so the
  write of \<open>enforce_last\<close> lands in \<open>x_traces\<close>.\<close>

fun find_loop :: "real \<Rightarrow> nat \<Rightarrow> real list \<Rightarrow> nat list \<Rightarrow> matrix \<Rightarrow> real list list \<Rightarrow> real list list
    \<Rightarrow> error + (matrix \<times> real list list \<times> real list list)" where
  "find_loop a num_trials tspan [] x_traces rts decisions = Inr (x_traces, rts, decisions)"
| "find_loop a num_trials tspan (param_idx # rest) x_traces rts decisions =
     (case find_param a num_trials tspan
             (take num_trials (drop (param_idx * num_trials) x_traces)) of
        Inl e \<Rightarrow> Inl e
      | Inr (X', rt_param, decisions_param) \<Rightarrow>
          find_loop a num_trials tspan rest
            (take (param_idx * num_trials) x_traces @ X' @
               drop ((param_idx + 1) * num_trials) x_traces)
            (rts @ [rt_param]) (decisions @ [decisions_param]))"

text \<open>
  \<^verbatim>\<open>return np.array(rts), np.array(decisions)\<close>: the rows collected per parameter are
  stacked into one array each. Rows of different lengths cannot be stacked and numpy
  raises ValueError. (numpy before 1.24 builds a one-dimensional array of row objects
  instead; the properties below that depend on the conversion are stated for rows of
  equal length, where every version returns the stacked array.)
\<close>

definition rectangular :: "'a list list \<Rightarrow> bool" where
  "rectangular rows =
     (case rows of [] \<Rightarrow> True | r # rest \<Rightarrow> list_all (\<lambda>r'. length r' = length r) rest)"

definition np_array :: "'a list list \<Rightarrow> error + 'a list list" where
  "np_array rows = (if rectangular rows then Inr rows else Inl ValueError)"

definition return_arrays ::
    "matrix \<Rightarrow> real list list \<Rightarrow> real list list \<Rightarrow> error + (matrix \<times> real list list \<times> real list list)" where
  "return_arrays x_traces rts decisions =
     (case np_array rts of
        Inl e \<Rightarrow> Inl e
      | Inr rts_array \<Rightarrow>
          (case np_array decisions of
             Inl e \<Rightarrow> Inl e
           | Inr decisions_array \<Rightarrow> Inr (x_traces, rts_array, decisions_array)))"

text \<open>The function: the assertion on the number of rows, then the loop, then the
  conversion of the collected rows. The result is the trace array after the in-place
  writes, and the two arrays \<open>rts\<close> and \<open>decisions\<close>, one row per parameter.\<close>

definition find_rts_and_decisions ::
    "matrix \<Rightarrow> int \<Rightarrow> int \<Rightarrow> real list \<Rightarrow> real \<Rightarrow> error + (matrix \<times> real list list \<times> real list list)" where
  "find_rts_and_decisions x_traces num_parameters num_trials tspan a =
     (if int (length x_traces) \<noteq> num_parameters * num_trials then Inl AssertionError
      else (case find_loop a (nat num_trials) tspan [0..<nat num_parameters] x_traces [] [] of
              Inl e \<Rightarrow> Inl e
            | Inr (X, rts, decisions) \<Rightarrow> return_arrays X rts decisions))"

subsection \<open>The algorithm of the specification, trial by trial\<close>

text \<open>
  The specification describes the extraction one trial at a time. These three
  definitions follow its words and are compared with the array code below.
  Step 1: the first time index where \<open>|X(t)| \<ge> a\<close>, if there is one.
\<close>

definition spec_crossing :: "real \<Rightarrow> real list \<Rightarrow> nat option" where
  "spec_crossing a xs =
     (if list_ex (\<lambda>x. a \<le> \<bar>x\<bar>) xs
      then Some (length (takeWhile (\<lambda>x. \<not> a \<le> \<bar>x\<bar>) xs))
      else None)"

text \<open>Step 2: an undecided trial has the value at its final time index forced to
  \<open>a \<cdot> sign(X(T))\<close>.\<close>

definition spec_force :: "real \<Rightarrow> real list \<Rightarrow> real list" where
  "spec_force a xs =
     (case spec_crossing a xs of
        None \<Rightarrow> xs[length xs - 1 := a * sgn (last xs)]
      | Some k \<Rightarrow> xs)"

text \<open>Steps 3 and 4: the scan is repeated on the forced trajectory; the reaction time
  is the time-grid value at the crossing index and the decision the sign of the
  trajectory there. A trajectory with no crossing after step 2 has no outcome.\<close>

definition spec_outcome :: "real \<Rightarrow> real list \<Rightarrow> real list \<Rightarrow> (real \<times> real) option" where
  "spec_outcome a tspan xs =
     (case spec_crossing a (spec_force a xs) of
        None \<Rightarrow> None
      | Some k \<Rightarrow> Some (tspan ! k, sgn (spec_force a xs ! k)))"

text \<open>The rows of one parameter in the trace array.\<close>

definition trial_slice :: "nat \<Rightarrow> nat \<Rightarrow> matrix \<Rightarrow> matrix" where
  "trial_slice num_trials p X = take num_trials (drop (p * num_trials) X)"

text \<open>The outcomes of every parameter, in the order of the parameters.\<close>

definition spec_outcomes :: "real \<Rightarrow> real list \<Rightarrow> nat \<Rightarrow> nat \<Rightarrow> matrix \<Rightarrow> (real \<times> real) list list" where
  "spec_outcomes a tspan num_trials num_parameters X =
     map (\<lambda>p. List.map_filter (spec_outcome a tspan) (trial_slice num_trials p X))
       [0..<num_parameters]"

subsection \<open>\<^verbatim>\<open>calculate_histogram_stats\<close>\<close>

text \<open>\<^verbatim>\<open>np.linspace(start, stop, num)\<close>: \<open>num\<close> points from \<open>start\<close> to \<open>stop\<close>, both
  included; a negative \<open>num\<close> raises ValueError.\<close>

definition linspace :: "real \<Rightarrow> real \<Rightarrow> int \<Rightarrow> error + real list" where
  "linspace start stop num =
     (if num < 0 then Inl ValueError
      else Inr (map (\<lambda>i. start + real i * ((stop - start) / real (nat num - 1))) [0..<nat num]))"

text \<open>
  \<^verbatim>\<open>np.histogram(vs, bins=edges)\<close> with an array of edges. numpy refuses edges that
  decrease somewhere; otherwise it takes, for each edge but the last, the number of
  values below it, for the last edge the number of values at or below it, and returns
  the differences of consecutive numbers: every bin is half-open but the last, which
  is closed.
\<close>

definition search_sorted_inclusive :: "real list \<Rightarrow> real list \<Rightarrow> int list" where
  "search_sorted_inclusive vs edges =
     map (\<lambda>e. int (length (filter (\<lambda>v. v < e) vs))) (butlast edges) @
     map (\<lambda>e. int (length (filter (\<lambda>v. v \<le> e) vs))) (drop (length edges - 1) edges)"

definition np_diff :: "int list \<Rightarrow> int list" where
  "np_diff xs = map (\<lambda>i. xs ! Suc i - xs ! i) [0..<length xs - 1]"

definition np_histogram :: "real list \<Rightarrow> real list \<Rightarrow> error + int list" where
  "np_histogram vs edges =
     (if \<not> sorted edges then Inl ValueError
      else Inr (np_diff (search_sorted_inclusive vs edges)))"

text \<open>The loop over the rows of \<open>sign_rts\<close>, one histogram per row.\<close>

fun histogram_loop :: "real list list \<Rightarrow> real list \<Rightarrow> error + int list list" where
  "histogram_loop [] bins = Inr []"
| "histogram_loop (row # rest) bins =
     (case np_histogram row bins of
        Inl e \<Rightarrow> Inl e
      | Inr trial_count \<Rightarrow>
          (case histogram_loop rest bins of
             Inl e \<Rightarrow> Inl e
           | Inr counts \<Rightarrow> Inr (trial_count # counts)))"

definition calculate_histogram_stats ::
    "real list list \<Rightarrow> real list list \<Rightarrow> real \<Rightarrow> int \<Rightarrow> error + int list list" where
  "calculate_histogram_stats rts decisions T nbins =
     (let sign_rts = map2 (map2 (*)) rts decisions
      in case linspace (- T) T nbins of
           Inl e \<Rightarrow> Inl e
         | Inr bins \<Rightarrow> histogram_loop sign_rts bins)"

subsection \<open>\<^verbatim>\<open>sdeint.itoEuler\<close>\<close>

text \<open>
  The solver is a library function. Called without \<open>dW\<close> it draws the Wiener
  increments itself; here they are an argument, \<open>dW n j\<close> being the increment of trial
  \<open>j\<close> at step \<open>n\<close>, so that a statement for every \<open>dW\<close> holds for every draw. With the
  notebook's \<open>f\<close> and \<open>G\<close> the drift vector is \<open>mu_expanded\<close> and the diffusion matrix is
  \<open>sigma\<close> times the identity, and the Euler-Maruyama step is
  \<open>y[n+1] = y[n] + mu_expanded * h + sigma * dW[n]\<close>.

  The library fails on a grid of fewer than two points (it takes the minimum of the
  empty list of grid differences), the product \<^verbatim>\<open>np.eye(d).dot(mu_expanded)\<close> fails
  when \<open>mu_expanded\<close> has not \<open>d\<close> entries, and the library reads \<open>y0[0]\<close>. Its check that
  the grid is equally spaced always passes on a grid made by \<open>linspace\<close> and is left
  out.
\<close>

fun ito_rows :: "real list \<Rightarrow> real \<Rightarrow> real \<Rightarrow> (nat \<Rightarrow> nat \<Rightarrow> real) \<Rightarrow> nat \<Rightarrow> real list \<Rightarrow> nat \<Rightarrow> matrix" where
  "ito_rows f sigma h dW n y 0 = []"
| "ito_rows f sigma h dW n y (Suc m) =
     (let y' = map (\<lambda>j. y ! j + f ! j * h + sigma * dW n j) [0..<length y]
      in y' # ito_rows f sigma h dW (Suc n) y' m)"

definition itoEuler :: "real list \<Rightarrow> real \<Rightarrow> real list \<Rightarrow> real list \<Rightarrow> (nat \<Rightarrow> nat \<Rightarrow> real) \<Rightarrow> error + matrix" where
  "itoEuler mu_expanded sigma y0 tspan dW =
     (let N = length tspan
      in if N < 2 then Inl ValueError
         else if length mu_expanded \<noteq> length y0 then Inl ValueError
         else if y0 = [] then Inl IndexError
         else (let h = (tspan ! (N - 1) - tspan ! 0) / real (N - 1)
               in Inr (y0 # ito_rows mu_expanded sigma h dW 0 y0 (N - 1))))"

subsection \<open>\<^verbatim>\<open>simulator\<close>\<close>

text \<open>The values the \<open>parameters\<close> argument can take: a Python float or int, and a
  tensor of dimension 0, 1 or 2.\<close>

datatype py_params =
    PyFloat real
  | PyInt int
  | Tensor0 real
  | Tensor1 "real list"
  | Tensor2 "real list list"

text \<open>
  The first lines of \<open>simulator\<close>: a float becomes the one-entry tensor, a tensor of
  dimension 1 and any length \<open>k\<close>, zero included, is reshaped to \<open>(1, k)\<close>, and
  \<open>parameters.shape[0]\<close> is read. An int has no attribute \<open>ndim\<close> and a tensor of
  dimension 0 has no \<open>shape[0]\<close>.
\<close>

definition coerce_parameters :: "py_params \<Rightarrow> error + real list list" where
  "coerce_parameters parameters =
     (case parameters of
        PyFloat x \<Rightarrow> Inr [[x]]
      | PyInt n \<Rightarrow> Inl AttributeError
      | Tensor0 x \<Rightarrow> Inl IndexError
      | Tensor1 xs \<Rightarrow> Inr [xs]
      | Tensor2 rows \<Rightarrow> Inr rows)"

text \<open>Python's \<open>int(x)\<close> on a float: truncation towards zero.\<close>

definition py_int :: "real \<Rightarrow> int" where
  "py_int x = (if 0 \<le> x then \<lfloor>x\<rfloor> else \<lceil>x\<rceil>)"

text \<open>
  The body of the loop over parameters for the parameter row \<open>mu\<close>, with the Wiener
  increments \<open>dW\<close> of this parameter's solver call. It returns the traces of the
  parameter (after the write of \<open>find_rts_and_decisions\<close>, which works on the array
  itself) and its statistics.
\<close>

definition simulate_param ::
    "real list \<Rightarrow> int \<Rightarrow> real \<Rightarrow> real \<Rightarrow> real \<Rightarrow> real \<Rightarrow> int \<Rightarrow> real \<Rightarrow> (nat \<Rightarrow> nat \<Rightarrow> real)
      \<Rightarrow> error + (matrix \<times> int list list)" where
  "simulate_param mu num_trials sigma T y0 a nbins dt dW =
     (if num_trials < 0 then Inl ValueError
      else if dt = 0 then Inl ZeroDivisionError
      else
        (let mu_expanded = concat (map (replicate (nat num_trials)) mu)
         in case linspace 0 T (py_int (T / dt)) of
              Inl e \<Rightarrow> Inl e
            | Inr tspan \<Rightarrow>
               (let y0_expanded = replicate (nat num_trials) y0
                in case itoEuler mu_expanded sigma y0_expanded tspan dW of
                     Inl e \<Rightarrow> Inl e
                   | Inr y \<Rightarrow>
                      (case find_rts_and_decisions (transpose y) 1 num_trials tspan a of
                         Inl e \<Rightarrow> Inl e
                       | Inr (x_traces_param, rts, decisions) \<Rightarrow>
                          (case calculate_histogram_stats rts decisions T nbins of
                             Inl e \<Rightarrow> Inl e
                           | Inr stats_param \<Rightarrow> Inr (x_traces_param, stats_param))))))"

text \<open>The loop \<^verbatim>\<open>for idx_param in range(num_parameters)\<close>, collecting the lists
  \<open>x_traces\<close> and \<open>stats\<close>; \<open>dW idx_param\<close> are the increments of the solver call for
  that parameter.\<close>

fun simulate_loop ::
    "nat \<Rightarrow> real list list \<Rightarrow> int \<Rightarrow> real \<Rightarrow> real \<Rightarrow> real \<Rightarrow> real \<Rightarrow> int \<Rightarrow> real \<Rightarrow> (nat \<Rightarrow> nat \<Rightarrow> nat \<Rightarrow> real)
      \<Rightarrow> matrix list \<Rightarrow> int list list list \<Rightarrow> error + (matrix list \<times> int list list list)" where
  "simulate_loop idx_param [] num_trials sigma T y0 a nbins dt dW x_traces stats =
     Inr (x_traces, stats)"
| "simulate_loop idx_param (mu # rest) num_trials sigma T y0 a nbins dt dW x_traces stats =
     (case simulate_param mu num_trials sigma T y0 a nbins dt (dW idx_param) of
        Inl e \<Rightarrow> Inl e
      | Inr (x_traces_param, stats_param) \<Rightarrow>
          simulate_loop (Suc idx_param) rest num_trials sigma T y0 a nbins dt dW
            (x_traces @ [x_traces_param]) (stats @ [stats_param]))"

text \<open>\<^verbatim>\<open>torch.cat\<close> along the first axis; it refuses the empty list.\<close>

definition torch_cat :: "'a list list \<Rightarrow> error + 'a list" where
  "torch_cat ts = (if ts = [] then Inl RuntimeError else Inr (concat ts))"

datatype sim_result =
    TracesAndStats (traces_of: matrix) (stats_of: "int list list")
  | Stats (stats_of: "int list list")

definition simulator ::
    "py_params \<Rightarrow> int \<Rightarrow> real \<Rightarrow> real \<Rightarrow> real \<Rightarrow> real \<Rightarrow> bool \<Rightarrow> int \<Rightarrow> real \<Rightarrow> (nat \<Rightarrow> nat \<Rightarrow> nat \<Rightarrow> real)
      \<Rightarrow> error + sim_result" where
  "simulator parameters num_trials sigma T y0 a return_traces nbins dt dW =
     (case coerce_parameters parameters of
        Inl e \<Rightarrow> Inl e
      | Inr rows \<Rightarrow>
         (case simulate_loop 0 rows num_trials sigma T y0 a nbins dt dW [] [] of
            Inl e \<Rightarrow> Inl e
          | Inr (x_traces, stats) \<Rightarrow>
             (case torch_cat x_traces of
                Inl e \<Rightarrow> Inl e
              | Inr x_traces_cat \<Rightarrow>
                 (case torch_cat stats of
                    Inl e \<Rightarrow> Inl e
                  | Inr stats_cat \<Rightarrow>
                      Inr (if return_traces then TracesAndStats x_traces_cat stats_cat
                           else Stats stats_cat)))))"

subsection \<open>Names for the intermediate values of one simulation\<close>

text \<open>The points \<open>linspace\<close> returns for a count that is not negative.\<close>

definition grid :: "real \<Rightarrow> real \<Rightarrow> nat \<Rightarrow> real list" where
  "grid start stop n = map (\<lambda>i. start + real i * ((stop - start) / real (n - 1))) [0..<n]"

text \<open>The number of grid points \<open>int(T/dt)\<close>, and the traces of one parameter as the solver
  returns them, transposed: the array \<open>find_rts_and_decisions\<close> receives.\<close>

definition num_steps :: "real \<Rightarrow> real \<Rightarrow> nat" where
  "num_steps T dt = nat (py_int (T / dt))"

definition solver_traces :: "real list \<Rightarrow> nat \<Rightarrow> real \<Rightarrow> real \<Rightarrow> real \<Rightarrow> real \<Rightarrow> (nat \<Rightarrow> nat \<Rightarrow> real) \<Rightarrow> matrix" where
  "solver_traces mu num_trials sigma T y0 dt dW =
     (let N = num_steps T dt;
          tspan = grid 0 T N;
          h = (tspan ! (N - 1) - tspan ! 0) / real (N - 1);
          y0_expanded = replicate num_trials y0
      in transpose (y0_expanded #
           ito_rows (concat (map (replicate num_trials) mu)) sigma h dW 0 y0_expanded (N - 1)))"

text \<open>The signed reaction times of the trials of one parameter that have an outcome.\<close>

definition signed_rts :: "real \<Rightarrow> real list \<Rightarrow> matrix \<Rightarrow> real list" where
  "signed_rts a tspan X =
     map2 (*) (map fst (List.map_filter (spec_outcome a tspan) X))
              (map snd (List.map_filter (spec_outcome a tspan) X))"

text \<open>The traces and the statistics of one parameter, as the loop of \<open>simulator\<close> collects
  them when the configuration passes.\<close>

definition param_traces :: "real \<Rightarrow> real list \<Rightarrow> nat \<Rightarrow> real \<Rightarrow> real \<Rightarrow> real \<Rightarrow> real \<Rightarrow> (nat \<Rightarrow> nat \<Rightarrow> real) \<Rightarrow> matrix" where
  "param_traces a mu num_trials sigma T y0 dt dW =
     map (spec_force a) (solver_traces mu num_trials sigma T y0 dt dW)"

definition param_stats :: "real \<Rightarrow> real list \<Rightarrow> nat \<Rightarrow> real \<Rightarrow> real \<Rightarrow> real \<Rightarrow> nat \<Rightarrow> real \<Rightarrow> (nat \<Rightarrow> nat \<Rightarrow> real) \<Rightarrow> int list" where
  "param_stats a mu num_trials sigma T y0 nbins dt dW =
     np_diff (search_sorted_inclusive
       (signed_rts a (grid 0 T (num_steps T dt)) (solver_traces mu num_trials sigma T y0 dt dW))
       (grid (- T) T nbins))"

text \<open>Wiener increments that are all zero.\<close>

definition no_noise :: "nat \<Rightarrow> nat \<Rightarrow> nat \<Rightarrow> real" where
  "no_noise p n j = 0"


text \<open>The trajectory of a trial with drift 0.3 and no noise on that grid: step \<open>k\<close> is at
  \<open>k * 0.3 * 5 / 499\<close>.\<close>

definition drift_ramp :: "real list" where
  "drift_ramp = map (\<lambda>k. real k * (3 / 998)) [0..<500]"

subsection \<open>\<^verbatim>\<open>rejection_abc\<close>\<close>

text \<open>
  The notebook leaves the body as an exercise: it holds comments only, followed by
  \<^verbatim>\<open>return samples\<close>. No \<open>samples\<close> is bound in the function or in the notebook, so
  every call raises NameError.
\<close>

definition rejection_abc :: "'prior \<Rightarrow> 'simulator \<Rightarrow> real list list \<Rightarrow> int \<Rightarrow> 'distance \<Rightarrow> real \<Rightarrow> error + real list list" where
  "rejection_abc prior simulator' observed_data num_simulations distance_fun q = Inl NameError"

section \<open>Properties\<close>

subsection \<open>The array code of \<^verbatim>\<open>find_rts_and_decisions\<close> and the trial-by-trial algorithm\<close>

lemma takeWhile_stops: "\<exists>x\<in>set xs. \<not> P x \<Longrightarrow> length (takeWhile P xs) < length xs"
  by (induction xs) auto

lemma first_true_filter:
  assumes "True \<in> set r"
  shows "filter (\<lambda>j. r ! j) [0..<length r] =
           length (takeWhile Not r) # filter (\<lambda>j. r ! j) [Suc (length (takeWhile Not r))..<length r]"
proof -
  let ?k = "length (takeWhile Not r)"
  have k: "?k < length r" using assms by (intro takeWhile_stops) auto
  have rk: "r ! ?k" using nth_length_takeWhile[OF k] by simp
  have before: "\<And>j. j < ?k \<Longrightarrow> \<not> r ! j"
    using nth_mem set_takeWhileD takeWhile_nth by (metis)
  have "[0..<length r] = [0..<?k] @ ?k # [Suc ?k..<length r]"
    using k by (metis le0 upt_add_eq_append upt_conv_Cons less_imp_le_nat le_add_diff_inverse)
  moreover have "filter (\<lambda>j. r ! j) [0..<?k] = []"
    using before by (auto simp: filter_empty_conv)
  ultimately show ?thesis using rk by simp
qed

lemma no_true_filter: "True \<notin> set r \<Longrightarrow> filter (\<lambda>j. r ! j) [0..<length r] = []"
  by (auto simp: filter_empty_conv in_set_conv_nth)

lemma filter_true_empty: "filter (\<lambda>j. r ! j) [0..<length r] = [] \<longleftrightarrow> True \<notin> set r"
  by (auto simp: filter_empty_conv in_set_conv_nth)

lemma nonzero_rows_mem:
  "x \<in> fst ` set (nonzero i B) \<longleftrightarrow> (\<exists>k<length B. x = i + k \<and> True \<in> set (B ! k))"
proof (induction B arbitrary: i)
  case Nil
  then show ?case by simp
next
  case (Cons r rs)
  have blk: "x \<in> fst ` set (map (Pair i) (filter (\<lambda>j. r ! j) [0..<length r])) \<longleftrightarrow> x = i \<and> True \<in> set r"
    using filter_true_empty[of r] by (cases "filter (\<lambda>j. r ! j) [0..<length r]") (auto simp: image_iff)
  have "x \<in> fst ` set (nonzero i (r # rs)) \<longleftrightarrow>
          x \<in> fst ` set (map (Pair i) (filter (\<lambda>j. r ! j) [0..<length r])) \<or> x \<in> fst ` set (nonzero (Suc i) rs)"
    by (simp add: image_Un)
  also have "\<dots> \<longleftrightarrow> (x = i \<and> True \<in> set r) \<or> (\<exists>k<length rs. x = Suc i + k \<and> True \<in> set (rs ! k))"
    unfolding blk Cons.IH ..
  also have "\<dots> \<longleftrightarrow> (\<exists>k<length (r # rs). x = i + k \<and> True \<in> set ((r # rs) ! k))"
    by (auto simp: less_Suc_eq_0_disj)
  finally show ?case .
qed

lemma np_unique_nonzero:
  "np_unique (map fst (nonzero 0 B)) = filter (\<lambda>k. True \<in> set (B ! k)) [0..<length B]"
proof -
  let ?ys = "filter (\<lambda>k. True \<in> set (B ! k)) [0..<length B]"
  have "set (sort (remdups (map fst (nonzero 0 B)))) = set ?ys"
    using nonzero_rows_mem[of _ 0 B] by auto
  moreover have "sorted ?ys" by (intro sorted_wrt_filter sorted_upt)
  moreover have "distinct ?ys" by simp
  ultimately show ?thesis unfolding np_unique_def
    by (metis distinct_remdups distinct_sort sorted_distinct_set_unique sorted_sort)
qed

lemma index_of_append_notin: "u \<notin> set xs \<Longrightarrow> index_of (xs @ ys) u = length xs + index_of ys u"
  unfolding index_of_def by (subst takeWhile_append2) auto

lemma nonzero_first:
  assumes "k < length B" "True \<in> set (B ! k)"
  shows "nonzero i B ! index_of (map fst (nonzero i B)) (i + k) = (i + k, length (takeWhile Not (B ! k)))"
  using assms
proof (induction B arbitrary: i k)
  case Nil
  then show ?case by simp
next
  case (Cons r rs)
  let ?blk = "map (Pair i) (filter (\<lambda>j. r ! j) [0..<length r])"
  show ?case
  proof (cases k)
    case 0
    then have t: "True \<in> set r" using Cons.prems by simp
    show ?thesis using 0 first_true_filter[OF t] by (simp add: index_of_def)
  next
    case (Suc k')
    have notin: "i + k \<notin> set (map fst ?blk)" using Suc by auto
    have k': "k' < length rs" "True \<in> set (rs ! k')" using Cons.prems Suc by auto
    have "index_of (map fst (nonzero i (r # rs))) (i + k) = length ?blk + index_of (map fst (nonzero (Suc i) rs)) (Suc i + k')"
      using index_of_append_notin[OF notin] Suc by simp
    then show ?thesis using Cons.IH[OF k', of "Suc i"] Suc by (simp add: nth_append)
  qed
qed

lemma mask_row_true:
  "k < length X \<Longrightarrow> True \<in> set (threshold_mask a X ! k) \<longleftrightarrow> spec_crossing a (X ! k) \<noteq> None"
  by (auto simp: threshold_mask_def spec_crossing_def list_ex_iff)

lemma mask_row_first:
  "k < length X \<Longrightarrow> spec_crossing a (X ! k) = Some c \<Longrightarrow>
     length (takeWhile Not (threshold_mask a X ! k)) = c"
  by (auto simp: threshold_mask_def spec_crossing_def takeWhile_map comp_def split: if_splits)

lemma spec_crossing_less: "spec_crossing a xs = Some c \<Longrightarrow> c < length xs"
  unfolding spec_crossing_def list_ex_iff
  by (auto split: if_splits intro!: takeWhile_stops)

lemma unique_rows_mask:
  "np_unique (map fst (nonzero 0 (threshold_mask a X))) =
     filter (\<lambda>k. spec_crossing a (X ! k) \<noteq> None) [0..<length X]"
proof -
  have "length (threshold_mask a X) = length X" by (simp add: threshold_mask_def)
  then show ?thesis
    unfolding np_unique_nonzero by (auto intro!: filter_cong simp: mask_row_true)
qed

lemma index_list_map:
  "map (\<lambda>k. f (Y ! k)) (filter (\<lambda>k. P (Y ! k)) [0..<length Y]) = map f (filter P Y)"
proof -
  have "map f (filter P (map ((!) Y) [0..<length Y])) = map (\<lambda>k. f (Y ! k)) (filter (\<lambda>k. P (Y ! k)) [0..<length Y])"
    by (simp add: filter_map comp_def)
  then show ?thesis by (simp add: map_nth)
qed

lemma enforce_last_spec:
  assumes "\<forall>xs\<in>set X. xs \<noteq> []"
  shows "enforce_last a (filter (\<lambda>k. spec_crossing a (X ! k) = None) [0..<length X]) X
           = Inr (map (spec_force a) X)"
proof -
  have "\<not> list_ex (\<lambda>i. length X \<le> i \<or> X ! i = []) (filter (\<lambda>k. spec_crossing a (X ! k) = None) [0..<length X])"
    using assms by (auto simp: list_ex_iff)
  moreover have "map (\<lambda>i. if i \<in> set (filter (\<lambda>k. spec_crossing a (X ! k) = None) [0..<length X])
                            then (X ! i)[length (X ! i) - 1 := a * sgn (last (X ! i))]
                            else X ! i) [0..<length X] = map (spec_force a) X"
    by (rule nth_equalityI) (auto simp: spec_force_def split: option.splits)
  ultimately show ?thesis by (simp add: enforce_last_def)
qed

lemma length_spec_force [simp]: "length (spec_force a xs) = length xs"
  by (simp add: spec_force_def split: option.splits)

lemma outcome_rts:
  "map fst (List.map_filter (spec_outcome a tspan) X) =
     map (\<lambda>ys. tspan ! the (spec_crossing a ys))
       (filter (\<lambda>ys. spec_crossing a ys \<noteq> None) (map (spec_force a) X))"
  by (induction X) (auto simp: List.map_filter_simps spec_outcome_def split: option.splits)

lemma outcome_decisions:
  "map snd (List.map_filter (spec_outcome a tspan) X) =
     map (\<lambda>ys. sgn (ys ! the (spec_crossing a ys)))
       (filter (\<lambda>ys. spec_crossing a ys \<noteq> None) (map (spec_force a) X))"
  by (induction X) (auto simp: List.map_filter_simps spec_outcome_def split: option.splits)

lemma decision_idx_mask:
  "map (\<lambda>t. map snd (nonzero 0 (threshold_mask a Y)) ! t)
       (np_unique_index (map fst (nonzero 0 (threshold_mask a Y))))
     = map (\<lambda>k. the (spec_crossing a (Y ! k)))
         (filter (\<lambda>k. spec_crossing a (Y ! k) \<noteq> None) [0..<length Y])"
proof -
  let ?B = "threshold_mask a Y"
  let ?nz = "nonzero 0 ?B"
  have lenB: "length ?B = length Y" by (simp add: threshold_mask_def)
  have one: "map snd ?nz ! index_of (map fst ?nz) k = the (spec_crossing a (Y ! k))"
    if k: "k < length Y" and c: "spec_crossing a (Y ! k) \<noteq> None" for k
  proof -
    have t: "True \<in> set (?B ! k)" using k c by (simp add: mask_row_true)
    have "k \<in> set (map fst ?nz)" using nonzero_rows_mem[of k 0 ?B] k t lenB by auto
    then have "index_of (map fst ?nz) k < length (map fst ?nz)"
      unfolding index_of_def by (intro takeWhile_stops) auto
    then have "map snd ?nz ! index_of (map fst ?nz) k = snd (?nz ! index_of (map fst ?nz) k)"
      by simp
    also have "\<dots> = length (takeWhile Not (?B ! k))"
      using nonzero_first[of k ?B 0] k t lenB by simp
    also have "\<dots> = the (spec_crossing a (Y ! k))"
      using mask_row_first[OF k] c by auto
    finally show ?thesis .
  qed
  show ?thesis
    unfolding np_unique_index_def unique_rows_mask by (auto simp: one)
qed

lemma find_param_spec:
  assumes len: "length X = num_trials"
    and rows: "\<forall>xs\<in>set X. xs \<noteq> [] \<and> length xs \<le> length tspan"
  shows "find_param a num_trials tspan X =
           Inr (map (spec_force a) X,
                map fst (List.map_filter (spec_outcome a tspan) X),
                map snd (List.map_filter (spec_outcome a tspan) X))"
proof -
  let ?X' = "map (spec_force a) X"
  let ?nz = "nonzero 0 (threshold_mask a ?X')"
  let ?dec = "filter (\<lambda>k. spec_crossing a (?X' ! k) \<noteq> None) [0..<length ?X']"
  let ?g = "\<lambda>k. the (spec_crossing a (?X' ! k))"
  have und: "filter (\<lambda>i. i \<notin> set (np_unique (map fst (nonzero 0 (threshold_mask a X))))) [0..<num_trials]
             = filter (\<lambda>k. spec_crossing a (X ! k) = None) [0..<length X]"
    unfolding unique_rows_mask using len by (auto intro!: filter_cong)
  have enf: "enforce_last a (filter (\<lambda>k. spec_crossing a (X ! k) = None) [0..<length X]) X = Inr ?X'"
    using rows by (intro enforce_last_spec) auto
  have uniq: "np_unique (map fst ?nz) = ?dec" by (rule unique_rows_mask)
  have didx: "map (\<lambda>t. map snd ?nz ! t) (np_unique_index (map fst ?nz)) = map ?g ?dec"
    by (rule decision_idx_mask)
  have inb: "\<not> list_ex (\<lambda>c. length tspan \<le> c) (map ?g ?dec)"
  proof -
    have "?g k < length tspan" if k: "k < length X" and ex: "spec_crossing a (?X' ! k) \<noteq> None" for k
    proof -
      obtain c where c: "spec_crossing a (?X' ! k) = Some c" using ex by blast
      have "c < length (?X' ! k)" using spec_crossing_less[OF c] .
      moreover have "length (?X' ! k) \<le> length tspan" using rows k by simp
      ultimately show ?thesis using c by simp
    qed
    then show ?thesis by (fastforce simp: list_ex_iff)
  qed
  have rts: "map (\<lambda>c. tspan ! c) (map ?g ?dec) = map fst (List.map_filter (spec_outcome a tspan) X)"
    unfolding outcome_rts
    using index_list_map[of "\<lambda>ys. tspan ! the (spec_crossing a ys)" ?X' "\<lambda>ys. spec_crossing a ys \<noteq> None"]
    by (simp add: comp_def)
  have decs: "map (\<lambda>(r, c). sgn (?X' ! r ! c)) (zip ?dec (map ?g ?dec))
               = map snd (List.map_filter (spec_outcome a tspan) X)"
    unfolding outcome_decisions
    using index_list_map[of "\<lambda>ys. sgn (ys ! the (spec_crossing a ys))" ?X' "\<lambda>ys. spec_crossing a ys \<noteq> None"]
    by (simp add: zip_map2 zip_same_conv_map comp_def)
  show ?thesis
    unfolding find_param_def Let_def und enf sum.case uniq didx
    using inb rts decs by simp
qed

lemma find_loop_spec:
  assumes len: "length X = n * nt"
    and rows: "\<forall>xs\<in>set X. xs \<noteq> [] \<and> length xs \<le> length tspan"
    and kn: "k \<le> n"
  shows "find_loop a nt tspan [k..<n] (map (spec_force a) (take (k * nt) X) @ drop (k * nt) X) rts decs =
           Inr (map (spec_force a) X,
                rts @ map (\<lambda>p. map fst (List.map_filter (spec_outcome a tspan) (trial_slice nt p X))) [k..<n],
                decs @ map (\<lambda>p. map snd (List.map_filter (spec_outcome a tspan) (trial_slice nt p X))) [k..<n])"
  using kn
proof (induction "n - k" arbitrary: k rts decs)
  case 0
  then have "k = n" by simp
  then show ?case using len by simp
next
  case (Suc d)
  then have kn: "k < n" by simp
  let ?Xc = "map (spec_force a) (take (k * nt) X) @ drop (k * nt) X"
  let ?S = "trial_slice nt k X"
  have le: "k * nt + nt \<le> length X"
    using kn len by (metis Suc_leI mult_Suc mult_le_mono1 add.commute)
  have pre: "length (map (spec_force a) (take (k * nt) X)) = k * nt" using le by simp
  have slice: "take nt (drop (k * nt) ?Xc) = ?S"
    using pre by (simp add: trial_slice_def)
  have lenS: "length ?S = nt" using le by (simp add: trial_slice_def)
  have rowsS: "\<forall>xs\<in>set ?S. xs \<noteq> [] \<and> length xs \<le> length tspan"
    using rows unfolding trial_slice_def by (meson in_set_dropD in_set_takeD)
  have fp: "find_param a nt tspan ?S = Inr (map (spec_force a) ?S,
                map fst (List.map_filter (spec_outcome a tspan) ?S),
                map snd (List.map_filter (spec_outcome a tspan) ?S))"
    by (rule find_param_spec[OF lenS rowsS])
  have next_state: "take (k * nt) ?Xc @ map (spec_force a) ?S @ drop ((k + 1) * nt) ?Xc
                 = map (spec_force a) (take (Suc k * nt) X) @ drop (Suc k * nt) X"
  proof -
    have "take (k * nt) ?Xc = map (spec_force a) (take (k * nt) X)" using pre by simp
    moreover have "drop ((k + 1) * nt) ?Xc = drop (Suc k * nt) X"
      using pre by (simp add: add.commute)
    moreover have "take (Suc k * nt) X = take (k * nt) X @ ?S"
      using take_add[of "k * nt" nt X] by (simp add: trial_slice_def add.commute)
    ultimately show ?thesis by simp
  qed
  have up: "[k..<n] = k # [Suc k..<n]" using kn by (simp add: upt_conv_Cons)
  have d: "d = n - Suc k" using Suc.hyps(2) by simp
  show ?case
    unfolding up find_loop.simps slice fp sum.case prod.case next_state
    using Suc.hyps(1)[OF d, of "rts @ [map fst (List.map_filter (spec_outcome a tspan) ?S)]"
        "decs @ [map snd (List.map_filter (spec_outcome a tspan) ?S)]"] kn
    by simp
qed

lemma find_loop_outcomes:
  assumes "int (length X) = num_parameters * num_trials"
    and "\<forall>xs\<in>set X. xs \<noteq> [] \<and> length xs \<le> length tspan"
    and "0 \<le> num_parameters"
  shows "find_loop a (nat num_trials) tspan [0..<nat num_parameters] X [] [] =
           Inr (map (spec_force a) X,
                map (map fst) (spec_outcomes a tspan (nat num_trials) (nat num_parameters) X),
                map (map snd) (spec_outcomes a tspan (nat num_trials) (nat num_parameters) X))"
proof (cases "0 < num_parameters")
  case True
  then have "0 \<le> num_trials" using assms(1)
    by (metis of_nat_0_le_iff zero_le_mult_iff not_less order.asym)
  then have "length X = nat num_parameters * nat num_trials"
    using assms(1) True by (metis nat_int nat_mult_distrib less_imp_le)
  from find_loop_spec[OF this assms(2), of 0 a "[]" "[]"] show ?thesis
    by (simp add: spec_outcomes_def comp_def)
next
  case False
  then have "nat num_parameters = 0" by simp
  moreover have "X = []" using False assms(1,3) by simp
  ultimately show ?thesis by (simp add: spec_outcomes_def)
qed

lemma rectangular_map_map [simp]: "rectangular (map (map f) rows) = rectangular rows"
  by (cases rows) (simp_all add: rectangular_def list_all_iff)

lemma return_arrays_outcomes:
  "return_arrays X (map (map fst) outs) (map (map snd) outs) =
     (if rectangular outs then Inr (X, map (map fst) outs, map (map snd) outs) else Inl ValueError)"
  by (simp add: return_arrays_def np_array_def)

lemma find_rts_and_decisions_spec:
  assumes "int (length X) = num_parameters * num_trials"
    and "\<forall>xs\<in>set X. xs \<noteq> [] \<and> length xs \<le> length tspan"
    and "0 \<le> num_parameters"
  shows "find_rts_and_decisions X num_parameters num_trials tspan a =
           (if rectangular (spec_outcomes a tspan (nat num_trials) (nat num_parameters) X)
            then Inr (map (spec_force a) X,
                      map (map fst) (spec_outcomes a tspan (nat num_trials) (nat num_parameters) X),
                      map (map snd) (spec_outcomes a tspan (nat num_trials) (nat num_parameters) X))
            else Inl ValueError)"
  unfolding find_rts_and_decisions_def find_loop_outcomes[OF assms] sum.case prod.case
    return_arrays_outcomes
  using assms(1) by simp

text \<open>
  Claim C5. For a trace array whose number of rows is \<open>num_parameters * num_trials\<close> and
  whose rows are not empty and not longer than the time grid, the array code computes
  what the specification says trial by trial: the loop over the parameters replaces
  the final value of every trial with no index where \<open>|X| \<ge> a\<close> by \<open>a * sign\<close> of that
  value, and collects for each parameter, in trial order, the time-grid value at the
  first index where the (forced) trajectory has \<open>|X| \<ge> a\<close> and the sign of the
  trajectory at that index. When the parameters have equally many outcomes, so that
  the collected rows stack into arrays, the function returns exactly these.
\<close>

theorem find_rts_and_decisions_per_trial:
  assumes "int (length X) = num_parameters * num_trials"
    and "\<forall>xs\<in>set X. xs \<noteq> [] \<and> length xs \<le> length tspan"
    and "0 \<le> num_parameters"
  shows "find_loop a (nat num_trials) tspan [0..<nat num_parameters] X [] [] =
           Inr (map (spec_force a) X,
                map (map fst) (spec_outcomes a tspan (nat num_trials) (nat num_parameters) X),
                map (map snd) (spec_outcomes a tspan (nat num_trials) (nat num_parameters) X)) \<and>
         (rectangular (spec_outcomes a tspan (nat num_trials) (nat num_parameters) X) \<longrightarrow>
          find_rts_and_decisions X num_parameters num_trials tspan a =
           Inr (map (spec_force a) X,
                map (map fst) (spec_outcomes a tspan (nat num_trials) (nat num_parameters) X),
                map (map snd) (spec_outcomes a tspan (nat num_trials) (nat num_parameters) X)))"
  using find_loop_outcomes[OF assms, of a] find_rts_and_decisions_spec[OF assms, of a] by simp

text \<open>The theorem at two parameters of two trials each. Of the first parameter one
  trial crosses at the second grid point and one is undecided and ends below zero; of
  the second one crosses downwards at the second grid point and one starts beyond the
  threshold.\<close>

theorem find_rts_and_decisions_per_trial_witness:
  "find_rts_and_decisions
     [[1/2, 6/5, 3/10], [1/10, -1/5, -3/10], [0, -3, 0], [2, 0, 0]] 2 2 [0, 5/2, 5] 1
     = Inr ([[1/2, 6/5, 3/10], [1/10, -1/5, -1], [0, -3, 0], [2, 0, 0]],
            [[5/2, 5], [5/2, 0]], [[1, -1], [-1, 1]])"
  using find_rts_and_decisions_per_trial
          [of "[[1/2, 6/5, 3/10], [1/10, -1/5, -3/10], [0, -3, 0], [2, 0, 0]]" 2 2 "[0, 5/2, 5]" 1]
  by (simp add: spec_force_def spec_crossing_def spec_outcome_def trial_slice_def
        spec_outcomes_def rectangular_def List.map_filter_simps eval_nat_numeral)

subsection \<open>The assertion on the number of rows\<close>

lemma find_param_error: "find_param a nt tspan X = Inl e \<Longrightarrow> e = IndexError"
  by (auto simp: find_param_def enforce_last_def Let_def split: if_splits sum.splits)

lemma find_loop_error: "find_loop a nt tspan ps X rts decs = Inl e \<Longrightarrow> e = IndexError"
  by (induction ps arbitrary: X rts decs) (auto split: sum.splits dest: find_param_error)

lemma return_arrays_error: "return_arrays X rts decs = Inl e \<Longrightarrow> e = ValueError"
  by (auto simp: return_arrays_def np_array_def split: if_splits sum.splits)

text \<open>
  Claim C9. \<open>find_rts_and_decisions\<close> requires the number of rows of \<open>x_traces\<close> to be
  \<open>num_parameters * num_trials\<close>: on every input that violates this it raises
  AssertionError and produces no outcome, and on every input that satisfies it the
  assertion does not fire and the function goes on to its loop over the parameters
  and to the conversion of what the loop collected.
\<close>

theorem find_rts_and_decisions_assertion:
  "(int (length x_traces) \<noteq> num_parameters * num_trials \<longrightarrow>
      find_rts_and_decisions x_traces num_parameters num_trials tspan a = Inl AssertionError) \<and>
   (int (length x_traces) = num_parameters * num_trials \<longrightarrow>
      find_rts_and_decisions x_traces num_parameters num_trials tspan a \<noteq> Inl AssertionError \<and>
      find_rts_and_decisions x_traces num_parameters num_trials tspan a =
        (case find_loop a (nat num_trials) tspan [0..<nat num_parameters] x_traces [] [] of
           Inl e \<Rightarrow> Inl e
         | Inr (X, rts, decisions) \<Rightarrow> return_arrays X rts decisions))"
proof (intro conjI impI)
  assume "int (length x_traces) \<noteq> num_parameters * num_trials"
  then show "find_rts_and_decisions x_traces num_parameters num_trials tspan a = Inl AssertionError"
    by (simp add: find_rts_and_decisions_def)
next
  assume eq: "int (length x_traces) = num_parameters * num_trials"
  then show "find_rts_and_decisions x_traces num_parameters num_trials tspan a =
        (case find_loop a (nat num_trials) tspan [0..<nat num_parameters] x_traces [] [] of
           Inl e \<Rightarrow> Inl e
         | Inr (X, rts, decisions) \<Rightarrow> return_arrays X rts decisions)"
    by (simp add: find_rts_and_decisions_def)
  show "find_rts_and_decisions x_traces num_parameters num_trials tspan a \<noteq> Inl AssertionError"
  proof
    assume "find_rts_and_decisions x_traces num_parameters num_trials tspan a = Inl AssertionError"
    then have "AssertionError = IndexError \<or> AssertionError = ValueError"
      using eq by (auto simp: find_rts_and_decisions_def split: sum.splits
                        dest: find_loop_error return_arrays_error)
    then show False by simp
  qed
qed

text \<open>Three rows for two parameters of two trials are refused; four rows pass the
  assertion and are processed.\<close>

theorem find_rts_and_decisions_assertion_witness:
  "find_rts_and_decisions [[0, 2], [0, 2], [0, 2]] 2 2 [0, 5] 1 = Inl AssertionError \<and>
   find_rts_and_decisions [[0, 2], [0, 2], [0, 2], [2, 0]] 2 2 [0, 5] 1
     = Inr ([[0, 2], [0, 2], [0, 2], [2, 0]], [[5, 5], [5, 0]], [[1, 1], [1, 1]])"
  using find_rts_and_decisions_assertion[of "[[0, 2], [0, 2], [0, 2]]" 2 2 "[0, 5]" 1]
    find_rts_and_decisions_assertion[of "[[0, 2], [0, 2], [0, 2], [2, 0]]" 2 2 "[0, 5]" 1]
    find_rts_and_decisions_spec[of "[[0, 2], [0, 2], [0, 2], [2, 0]]" 2 2 "[0, 5]" 1]
  by (simp add: spec_force_def spec_crossing_def spec_outcome_def trial_slice_def
        spec_outcomes_def rectangular_def List.map_filter_simps eval_nat_numeral)

subsection \<open>Undecided trials that end at zero\<close>

text \<open>
  Claim C1 says that the output holds exactly one outcome per input trial. The code
  comments the second scan with "all trials are decisive now", but an undecided trial
  whose final value is exactly 0 is forced to \<open>a * sign(0) = 0\<close> and stays without a
  crossing. Here the batch has two trials, the second of them identically zero, and
  the output has one reaction time and one decision.
\<close>

theorem undecided_zero_trial_has_no_outcome:
  "find_rts_and_decisions [[0, 3/2], [0, 0]] 1 2 [0, 5] 1 = Inr ([[0, 3/2], [0, 0]], [[5]], [[1]])"
  using find_rts_and_decisions_spec[of "[[0, 3/2], [0, 0]]" 1 2 "[0, 5]" 1]
  by (simp add: spec_force_def spec_crossing_def spec_outcome_def trial_slice_def
        spec_outcomes_def rectangular_def List.map_filter_simps)

lemma spec_force_degenerate:
  "spec_crossing a xs = None \<Longrightarrow> last xs = 0 \<Longrightarrow> spec_force a xs = xs"
  by (cases xs rule: rev_cases) (auto simp: spec_force_def)



lemma length_trial_slice:
  assumes "length X = n * nt" "p < n"
  shows "length (trial_slice nt p X) = nt"
proof -
  have "p * nt + nt \<le> n * nt"
    using assms(2) by (metis Suc_leI mult_Suc mult_le_mono1 add.commute)
  then show ?thesis using assms(1) by (simp add: trial_slice_def)
qed





subsection \<open>\<^verbatim>\<open>rejection_abc\<close> is not implemented\<close>

text \<open>
  Claim C4 says that a budget of 10000 and a quantile of 0.01 give 100 accepted
  parameters, which is what the notebook's exercise text asks for. The function as it
  stands in the notebook raises NameError on that call.
\<close>

theorem rejection_abc_unimplemented:
  "rejection_abc prior simulator' observed_data 10000 distance_fun (1/100) = Inl NameError"
  by (simp add: rejection_abc_def)

text \<open>
  Claim C7 says that the call succeeds for every budget of at least 1 and every
  quantile in \<open>(0, 1]\<close>. As the function stands, no call succeeds.
\<close>

theorem rejection_abc_never_succeeds:
  "isl (rejection_abc prior simulator' observed_data num_simulations distance_fun q)"
  by (simp add: rejection_abc_def)

subsection \<open>Which trials have an outcome\<close>

text \<open>A trial has no outcome exactly when it never reaches the threshold and ends at 0
  (or has no time step at all); every other trial has one.\<close>

lemma spec_crossing_forced:
  assumes "spec_crossing a xs = None" "xs \<noteq> []" "last xs \<noteq> 0"
  shows "spec_crossing a (spec_force a xs) \<noteq> None"
proof -
  let ?v = "a * sgn (last xs)"
  have "\<bar>?v\<bar> = \<bar>a\<bar>" using assms(3) by (simp add: abs_mult sgn_real_def)
  then have v: "a \<le> \<bar>?v\<bar>" by simp
  have "?v \<in> set (xs[length xs - 1 := ?v])"
    using assms(2) by (intro set_update_memI) simp
  then have "list_ex (\<lambda>x. a \<le> \<bar>x\<bar>) (spec_force a xs)"
    using v assms(1) unfolding list_ex_iff spec_force_def by auto
  then show ?thesis by (simp add: spec_crossing_def)
qed

lemma spec_crossing_force_Some:
  "spec_crossing a xs = Some k \<Longrightarrow> spec_crossing a (spec_force a xs) = Some k"
  by (simp add: spec_force_def)

lemma spec_outcome_None_iff:
  "spec_outcome a tspan xs = None \<longleftrightarrow> spec_crossing a xs = None \<and> (xs = [] \<or> last xs = 0)"
proof (cases "spec_crossing a xs")
  case None
  show ?thesis
  proof (cases "xs = [] \<or> last xs = 0")
    case True
    then have "spec_force a xs = xs"
    proof
      assume "xs = []" then show ?thesis by (simp add: spec_force_def split: option.splits)
    next
      assume "last xs = 0" then show ?thesis using None by (intro spec_force_degenerate)
    qed
    then show ?thesis using None True by (simp add: spec_outcome_def)
  next
    case False
    then have "spec_crossing a (spec_force a xs) \<noteq> None"
      using None by (intro spec_crossing_forced) auto
    then show ?thesis using None False by (auto simp: spec_outcome_def split: option.splits)
  qed
next
  case (Some k)
  then show ?thesis using spec_crossing_force_Some[OF Some] by (simp add: spec_outcome_def)
qed

lemma length_map_filter: "length (List.map_filter f xs) = length (filter (\<lambda>x. f x \<noteq> None) xs)"
  by (simp add: List.map_filter_def)

lemma outcomes_decisive:
  assumes "\<forall>xs\<in>set X. xs \<noteq> [] \<and> (spec_crossing a xs \<noteq> None \<or> last xs \<noteq> 0)"
  shows "length (List.map_filter (spec_outcome a tspan) X) = length X"
proof -
  have "filter (\<lambda>x. spec_outcome a tspan x \<noteq> None) X = X"
    using assms by (auto simp: filter_id_conv spec_outcome_None_iff)
  then show ?thesis by (simp add: length_map_filter)
qed

subsection \<open>The time grid and the solver\<close>

lemma linspace_grid: "0 \<le> num \<Longrightarrow> linspace start stop num = Inr (grid start stop (nat num))"
  by (simp add: linspace_def grid_def)

lemma length_grid [simp]: "length (grid start stop n) = n"
  by (simp add: grid_def)

lemma nth_grid: "i < n \<Longrightarrow> grid start stop n ! i = start + real i * ((stop - start) / real (n - 1))"
  by (simp add: grid_def)

lemma grid_step_nonneg: "start \<le> stop \<Longrightarrow> 0 \<le> (stop - start) / real (n - 1)"
  by simp

lemma sorted_grid:
  assumes "start \<le> stop"
  shows "sorted (grid start stop n)"
  unfolding sorted_iff_nth_mono
proof (intro allI impI)
  fix i j assume ij: "i \<le> j" and j: "j < length (grid start stop n)"
  let ?c = "(stop - start) / real (n - 1)"
  have "real i * ?c \<le> real j * ?c"
    using ij grid_step_nonneg[OF assms, of n] by (intro mult_right_mono) auto
  then show "grid start stop n ! i \<le> grid start stop n ! j"
    using ij j by (simp only: nth_grid length_grid le_less_trans add_left_mono)
qed

lemma grid_bounds:
  assumes "start \<le> stop" "i < n"
  shows "start \<le> grid start stop n ! i \<and> grid start stop n ! i \<le> stop"
proof -
  define c where "c = (stop - start) / real (n - 1)"
  define x where "x = real i * c"
  have c: "0 \<le> c" unfolding c_def using assms(1) by (rule grid_step_nonneg)
  have le: "x \<le> stop - start"
  proof (cases "n = 1")
    case True
    then show ?thesis using assms by (simp add: x_def)
  next
    case False
    then have n: "0 < real (n - 1)" using assms by simp
    have "real i \<le> real (n - 1)" using assms by simp
    then have "real i * c \<le> real (n - 1) * c" using c by (rule mult_right_mono)
    also have "\<dots> = stop - start" using n by (simp add: c_def)
    finally show ?thesis by (simp add: x_def)
  qed
  have "0 \<le> x" unfolding x_def using c by (intro mult_nonneg_nonneg) auto
  then have "start \<le> start + x \<and> start + x \<le> stop" using le by linarith
  then show ?thesis unfolding nth_grid[OF assms(2)] x_def c_def .
qed

lemma ito_rows_length [simp]: "length (ito_rows f sigma h dW n y m) = m"
proof (induction m arbitrary: n y)
  case 0
  then show ?case by simp
next
  case (Suc m)
  then show ?case by (simp add: Let_def)
qed

lemma ito_rows_row_length:
  "r \<in> set (ito_rows f sigma h dW n y m) \<Longrightarrow> length r = length y"
proof (induction m arbitrary: n y)
  case 0
  then show ?case by simp
next
  case (Suc m)
  let ?y' = "map (\<lambda>j. y ! j + f ! j * h + sigma * dW n j) [0..<length y]"
  from Suc.prems have "r = ?y' \<or> r \<in> set (ito_rows f sigma h dW (Suc n) ?y' m)"
    by (simp add: Let_def)
  then show ?case
  proof
    assume "r = ?y'" then show ?thesis by simp
  next
    assume "r \<in> set (ito_rows f sigma h dW (Suc n) ?y' m)"
    from Suc.IH[OF this] show ?thesis by simp
  qed
qed

lemma ito_rows_at_rest:
  "ito_rows (replicate d 0) 0 h dW n (replicate d 0) m = replicate m (replicate d 0)"
proof (induction m arbitrary: n)
  case 0
  then show ?case by simp
next
  case (Suc m)
  have "map (\<lambda>j. replicate d (0::real) ! j + replicate d 0 ! j * h + 0 * dW n j) [0..<length (replicate d (0::real))]
          = replicate d 0"
    by (rule nth_equalityI) simp_all
  then show ?case using Suc.IH by (simp add: Let_def)
qed

lemma foldr_max_rect:
  "ys \<noteq> [] \<Longrightarrow> \<forall>r\<in>set ys. length r = d \<Longrightarrow> foldr (\<lambda>xs. max (length xs)) ys 0 = d"
proof (induction ys)
  case Nil
  then show ?case by simp
next
  case (Cons y ys)
  then show ?case by (cases "ys = []") simp_all
qed

lemma transpose_rect:
  assumes "ys \<noteq> []" "\<forall>r\<in>set ys. length r = d"
  shows "transpose ys = map (\<lambda>j. map (\<lambda>r. r ! j) ys) [0..<d]"
proof -
  have len: "length (transpose ys) = d"
    using foldr_max_rect[OF assms] by (simp add: length_transpose)
  show ?thesis
  proof (rule nth_equalityI)
    show "length (transpose ys) = length (map (\<lambda>j. map (\<lambda>r. r ! j) ys) [0..<d])"
      using len by simp
  next
    fix i assume "i < length (transpose ys)"
    then have i: "i < d" using len by simp
    then have "filter (\<lambda>r. i < length r) ys = ys" using assms(2) by (simp add: filter_id_conv)
    moreover have "transpose ys ! i = map (\<lambda>xs. xs ! i) (filter (\<lambda>r. i < length r) ys)"
      using i len by (intro nth_transpose) simp
    ultimately show "transpose ys ! i = map (\<lambda>j. map (\<lambda>r. r ! j) ys) [0..<d] ! i"
      using i by simp
  qed
qed

lemma itoEuler_ok:
  assumes "2 \<le> length tspan" "length mu_expanded = length y0" "y0 \<noteq> []"
  shows "itoEuler mu_expanded sigma y0 tspan dW =
           Inr (y0 # ito_rows mu_expanded sigma
                  ((tspan ! (length tspan - 1) - tspan ! 0) / real (length tspan - 1)) dW 0 y0
                  (length tspan - 1))"
  using assms by (simp add: itoEuler_def Let_def)

lemma solver_traces_shape:
  assumes "length mu = 1" "0 < num_trials" "2 \<le> num_steps T dt"
  shows "length (solver_traces mu num_trials sigma T y0 dt dW) = num_trials"
    and "\<forall>xs\<in>set (solver_traces mu num_trials sigma T y0 dt dW). length xs = num_steps T dt"
proof -
  let ?N = "num_steps T dt"
  let ?tspan = "grid 0 T ?N"
  let ?h = "(?tspan ! (?N - 1) - ?tspan ! 0) / real (?N - 1)"
  let ?y0 = "replicate num_trials y0"
  let ?ys = "?y0 # ito_rows (concat (map (replicate num_trials) mu)) sigma ?h dW 0 ?y0 (?N - 1)"
  have rect: "\<forall>r\<in>set ?ys. length r = num_trials"
    using ito_rows_row_length[of _ _ sigma ?h dW 0 ?y0 "?N - 1"] by auto
  have tr: "solver_traces mu num_trials sigma T y0 dt dW = map (\<lambda>j. map (\<lambda>r. r ! j) ?ys) [0..<num_trials]"
    unfolding solver_traces_def Let_def by (rule transpose_rect[OF _ rect]) simp
  show "length (solver_traces mu num_trials sigma T y0 dt dW) = num_trials"
    unfolding tr by simp
  show "\<forall>xs\<in>set (solver_traces mu num_trials sigma T y0 dt dW). length xs = num_steps T dt"
    unfolding tr using assms(3) by auto
qed

subsection \<open>The histogram\<close>

lemma length_search_sorted_inclusive [simp]:
  "length (search_sorted_inclusive vs edges) = length edges"
  by (cases "edges = []") (simp_all add: search_sorted_inclusive_def)

lemma length_np_diff [simp]: "length (np_diff xs) = length xs - 1"
  by (simp add: np_diff_def)

lemma search_sorted_inclusive_Nil:
  "search_sorted_inclusive [] edges = replicate (length edges) 0"
  by (rule nth_equalityI) (auto simp: search_sorted_inclusive_def nth_append)

lemma np_diff_zeros: "np_diff (replicate n 0) = replicate (n - 1) 0"
  by (rule nth_equalityI) (simp_all add: np_diff_def)

lemma np_diff_Cons2: "np_diff (x # y # zs) = (y - x) # np_diff (y # zs)"
proof -
  have "[0..<Suc (length zs)] = 0 # map Suc [0..<length zs]"
    by (simp add: upt_conv_Cons map_Suc_upt del: upt_Suc)
  then show ?thesis by (simp add: np_diff_def del: upt_Suc)
qed

lemma np_diff_single [simp]: "np_diff [x] = []"
  by (simp add: np_diff_def)

lemma sum_np_diff: "xs \<noteq> [] \<Longrightarrow> sum_list (np_diff xs) = last xs - hd xs"
proof (induction xs rule: induct_list012)
  case 1
  then show ?case by simp
next
  case (2 x)
  then show ?case by simp
next
  case (3 x y zs)
  then show ?case by (simp add: np_diff_Cons2)
qed

lemma np_diff_nonneg:
  assumes "sorted xs" "c \<in> set (np_diff xs)"
  shows "0 \<le> c"
proof -
  obtain i where i: "i < length xs - 1" and c: "c = xs ! Suc i - xs ! i"
    using assms(2) by (auto simp: np_diff_def)
  have "xs ! i \<le> xs ! Suc i" using assms(1) i by (intro sorted_nth_mono) auto
  then show ?thesis using c by simp
qed

lemma search_sorted_hd_last:
  assumes "2 \<le> length edges"
  shows "hd (search_sorted_inclusive vs edges) = int (length (filter (\<lambda>v. v < hd edges) vs))"
    and "last (search_sorted_inclusive vs edges) = int (length (filter (\<lambda>v. v \<le> last edges) vs))"
proof -
  obtain e0 rest where e: "edges = e0 # rest" "rest \<noteq> []"
  proof (cases edges)
    case Nil
    then show ?thesis using assms by simp
  next
    case (Cons e0 rest)
    then have "rest \<noteq> []" using assms by auto
    then show ?thesis using Cons that by blast
  qed
  have d: "drop (length edges - 1) edges = [last edges]"
    using e by (metis append_butlast_last_id append_eq_conv_conj length_butlast list.distinct(1))
  show "hd (search_sorted_inclusive vs edges) = int (length (filter (\<lambda>v. v < hd edges) vs))"
    using e by (simp add: search_sorted_inclusive_def)
  show "last (search_sorted_inclusive vs edges) = int (length (filter (\<lambda>v. v \<le> last edges) vs))"
    unfolding search_sorted_inclusive_def d by simp
qed

lemma histogram_sum_in_range:
  assumes "2 \<le> length edges" "\<forall>v\<in>set vs. hd edges \<le> v \<and> v \<le> last edges"
  shows "sum_list (np_diff (search_sorted_inclusive vs edges)) = int (length vs)"
proof -
  have ne: "search_sorted_inclusive vs edges \<noteq> []"
    using assms(1) by (metis length_search_sorted_inclusive list.size(3) not_numeral_le_zero)
  have "filter (\<lambda>v. v < hd edges) vs = []" using assms(2) by (auto simp: filter_empty_conv)
  moreover have "filter (\<lambda>v. v \<le> last edges) vs = vs" using assms(2) by (auto simp: filter_id_conv)
  ultimately show ?thesis
    using sum_np_diff[OF ne] search_sorted_hd_last[OF assms(1), of vs] by simp
qed

lemma count_below_mono:
  "e \<le> e' \<Longrightarrow> length (filter (\<lambda>v. v < e) vs) \<le> length (filter (\<lambda>v::real. v < e') vs)"
  "e \<le> e' \<Longrightarrow> length (filter (\<lambda>v. v < e) vs) \<le> length (filter (\<lambda>v::real. v \<le> e') vs)"
  by (induction vs) auto

lemma sorted_search_sorted:
  assumes "sorted edges"
  shows "sorted (search_sorted_inclusive vs edges)"
proof (cases "edges = []")
  case True
  then show ?thesis by (simp add: search_sorted_inclusive_def)
next
  case False
  then have d: "drop (length edges - 1) edges = [last edges]"
    by (metis append_butlast_last_id append_eq_conv_conj length_butlast)
  have sb: "sorted (butlast edges)" using assms by (simp add: sorted_butlast)
  have "sorted (map (\<lambda>e. int (length (filter (\<lambda>v. v < e) vs))) (butlast edges))"
    unfolding sorted_map using sb
    by (rule sorted_wrt_mono_rel[rotated]) (simp add: count_below_mono(1))
  moreover have "\<forall>e\<in>set (butlast edges). e \<le> last edges"
    using assms False by (metis append_butlast_last_id sorted_append list.set_intros(1))
  ultimately show ?thesis
    unfolding search_sorted_inclusive_def d
    by (auto simp: sorted_append count_below_mono(2))
qed

lemma hd_grid: "0 < n \<Longrightarrow> hd (grid start stop n) = start"
  by (simp add: grid_def hd_map upt_conv_Cons)

lemma last_grid: "2 \<le> n \<Longrightarrow> last (grid start stop n) = stop"
proof -
  assume n: "2 \<le> n"
  then have "last (grid start stop n) = grid start stop n ! (n - 1)"
    by (simp add: last_conv_nth grid_def)
  also have "\<dots> = stop" using n by (simp add: nth_grid)
  finally show ?thesis .
qed

lemma histogram_stats_single:
  assumes "0 \<le> T" "0 \<le> nbins"
  shows "calculate_histogram_stats [rts] [decisions] T nbins =
           Inr [np_diff (search_sorted_inclusive (map2 (*) rts decisions) (grid (- T) T (nat nbins)))]"
  using assms sorted_grid[of "- T" T "nat nbins"]
  by (simp add: calculate_histogram_stats_def linspace_grid np_histogram_def)

subsection \<open>A simulation with a valid configuration returns\<close>

lemma simulate_param_ok:
  assumes mu: "length mu = 1" and nt: "1 \<le> num_trials" and dt: "dt \<noteq> 0"
    and N: "2 \<le> py_int (T / dt)" and T: "0 \<le> T" and nb: "0 \<le> nbins"
  shows "simulate_param mu num_trials sigma T y0 a nbins dt dW =
           Inr (param_traces a mu (nat num_trials) sigma T y0 dt dW,
                [param_stats a mu (nat num_trials) sigma T y0 (nat nbins) dt dW])"
proof -
  let ?nt = "nat num_trials"
  let ?N = "num_steps T dt"
  let ?tspan = "grid 0 T ?N"
  let ?X = "solver_traces mu ?nt sigma T y0 dt dW"
  have N2: "2 \<le> ?N" using N by (simp add: num_steps_def)
  have lin: "linspace 0 T (py_int (T / dt)) = Inr ?tspan"
    using N by (simp add: linspace_grid num_steps_def)
  have mu_e: "length (concat (map (replicate ?nt) mu)) = ?nt"
    using mu by (cases mu) auto
  have ito: "itoEuler (concat (map (replicate ?nt) mu)) sigma (replicate ?nt y0) ?tspan dW =
       Inr (replicate ?nt y0 # ito_rows (concat (map (replicate ?nt) mu)) sigma
                  ((?tspan ! (?N - 1) - ?tspan ! 0) / real (?N - 1)) dW 0 (replicate ?nt y0) (?N - 1))"
    using itoEuler_ok[of ?tspan "concat (map (replicate ?nt) mu)" "replicate ?nt y0" sigma dW] N2 mu_e nt
    by simp
  have shape: "length ?X = ?nt" "\<forall>xs\<in>set ?X. length xs = ?N"
    using solver_traces_shape[OF mu _ N2, of ?nt] nt by auto
  have frd: "find_rts_and_decisions ?X 1 num_trials ?tspan a =
          Inr (map (spec_force a) ?X,
               [map fst (List.map_filter (spec_outcome a ?tspan) ?X)],
               [map snd (List.map_filter (spec_outcome a ?tspan) ?X)])"
  proof -
    have rows: "\<forall>xs\<in>set ?X. xs \<noteq> [] \<and> length xs \<le> length ?tspan"
      using shape(2) N2 by auto
    have len: "int (length ?X) = 1 * num_trials" using shape(1) nt by simp
    show ?thesis
      using find_rts_and_decisions_spec[OF len rows, of a] shape(1) nt
      by (simp add: trial_slice_def spec_outcomes_def rectangular_def)
  qed
  show ?thesis
    unfolding simulate_param_def
    using nt dt lin ito frd histogram_stats_single[OF T nb]
    by (simp add: Let_def solver_traces_def signed_rts_def param_traces_def param_stats_def)
qed

lemma simulate_loop_ok:
  assumes rows: "\<forall>mu\<in>set rows. length mu = 1" and nt: "1 \<le> num_trials" and dt: "dt \<noteq> 0"
    and N: "2 \<le> py_int (T / dt)" and T: "0 \<le> T" and nb: "0 \<le> nbins"
  shows "simulate_loop k rows num_trials sigma T y0 a nbins dt dW x_traces stats =
           Inr (x_traces @ map (\<lambda>(i, mu). param_traces a mu (nat num_trials) sigma T y0 dt (dW i))
                              (enumerate k rows),
                stats @ map (\<lambda>(i, mu). [param_stats a mu (nat num_trials) sigma T y0 (nat nbins) dt (dW i)])
                          (enumerate k rows))"
  using rows
proof (induction rows arbitrary: k x_traces stats)
  case Nil
  then show ?case by simp
next
  case (Cons mu rest)
  have one: "length mu = 1" using Cons.prems by simp
  show ?case
    using Cons.IH Cons.prems simulate_param_ok[OF one nt dt N T nb]
    by simp
qed

lemma simulator_ok:
  assumes co: "coerce_parameters parameters = Inr rows" and ne: "rows \<noteq> []"
    and rows: "\<forall>mu\<in>set rows. length mu = 1" and nt: "1 \<le> num_trials" and dt: "dt \<noteq> 0"
    and N: "2 \<le> py_int (T / dt)" and T: "0 \<le> T" and nb: "0 \<le> nbins"
  shows "simulator parameters num_trials sigma T y0 a return_traces nbins dt dW =
           Inr (let traces = concat (map (\<lambda>(i, mu). param_traces a mu (nat num_trials) sigma T y0 dt (dW i))
                                        (enumerate 0 rows));
                    stats = map (\<lambda>(i, mu). param_stats a mu (nat num_trials) sigma T y0 (nat nbins) dt (dW i))
                              (enumerate 0 rows)
                in if return_traces then TracesAndStats traces stats else Stats stats)"
proof -
  have cc: "concat (map (\<lambda>(i, mu). [param_stats a mu (nat num_trials) sigma T y0 (nat nbins) dt (dW i)])
                (enumerate 0 rows))
            = map (\<lambda>(i, mu). param_stats a mu (nat num_trials) sigma T y0 (nat nbins) dt (dW i))
                (enumerate 0 rows)"
    by (induction rows rule: rev_induct) (auto simp: enumerate_append_eq)
  show ?thesis
    unfolding simulator_def co sum.case simulate_loop_ok[OF rows nt dt N T nb] prod.case
    using ne cc by (cases rows) (simp_all add: torch_cat_def Let_def)
qed

lemma simulate_param_too_few_steps:
  assumes "dt = 0 \<or> py_int (T / dt) < 2"
  shows "isl (simulate_param mu num_trials sigma T y0 a nbins dt dW)"
proof (cases "num_trials < 0 \<or> dt = 0")
  case True
  then show ?thesis by (auto simp: simulate_param_def)
next
  case False
  then have small: "py_int (T / dt) < 2" using assms by simp
  show ?thesis
  proof (cases "py_int (T / dt) < 0")
    case True
    then show ?thesis using False by (simp add: simulate_param_def linspace_def)
  next
    case neg: False
    then have "linspace 0 T (py_int (T / dt)) = Inr (grid 0 T (nat (py_int (T / dt))))"
      by (simp add: linspace_grid)
    moreover have "length (grid 0 T (nat (py_int (T / dt)))) < 2" using small by simp
    ultimately show ?thesis using False
      by (simp add: simulate_param_def itoEuler_def Let_def)
  qed
qed

lemma simulate_loop_too_few_steps:
  assumes "dt = 0 \<or> py_int (T / dt) < 2" "rows \<noteq> []"
  shows "isl (simulate_loop k rows num_trials sigma T y0 a nbins dt dW x_traces stats)"
proof (cases rows)
  case Nil
  then show ?thesis using assms(2) by simp
next
  case (Cons mu rest)
  obtain e where "simulate_param mu num_trials sigma T y0 a nbins dt (dW k) = Inl e"
    using simulate_param_too_few_steps[OF assms(1), of mu num_trials sigma y0 a nbins "dW k"]
    by (auto simp: isl_def)
  then show ?thesis using Cons by simp
qed

lemma simulator_too_few_steps:
  assumes "dt = 0 \<or> py_int (T / dt) < 2"
  shows "isl (simulator parameters num_trials sigma T y0 a return_traces nbins dt dW)"
proof (cases "coerce_parameters parameters")
  case (Inl e)
  then show ?thesis by (simp add: simulator_def)
next
  case (Inr rows)
  show ?thesis
  proof (cases "rows = []")
    case True
    then show ?thesis using Inr by (simp add: simulator_def torch_cat_def)
  next
    case False
    from simulate_loop_too_few_steps[OF assms False, of 0 num_trials sigma y0 a nbins dW "[]" "[]"]
    show ?thesis using Inr by (auto simp: simulator_def isl_def)
  qed
qed

subsection \<open>Shape and sum of the summary vectors\<close>

lemma spec_outcome_Some:
  assumes "spec_outcome a tspan xs = Some (rt, d)"
  shows "\<exists>k<length xs. rt = tspan ! k \<and> d = sgn (spec_force a xs ! k)"
proof -
  obtain k where k: "spec_crossing a (spec_force a xs) = Some k"
    using assms by (auto simp: spec_outcome_def split: option.splits)
  have "k < length xs" using spec_crossing_less[OF k] by simp
  then show ?thesis using assms k by (auto simp: spec_outcome_def)
qed

lemma map2_fst_snd: "map2 f (map fst os) (map snd os) = map (\<lambda>(x, y). f x y) os"
  by (induction os) auto

lemma signed_rts_bounds:
  assumes T: "0 \<le> T" and rows: "\<forall>xs\<in>set X. length xs \<le> N"
    and v: "v \<in> set (signed_rts a (grid 0 T N) X)"
  shows "- T \<le> v \<and> v \<le> T"
proof -
  let ?os = "List.map_filter (spec_outcome a (grid 0 T N)) X"
  have "signed_rts a (grid 0 T N) X = map (\<lambda>(rt, d). rt * d) ?os"
    unfolding signed_rts_def by (rule map2_fst_snd)
  then obtain rt d where o: "(rt, d) \<in> set ?os" and vd: "v = rt * d"
    using v by auto
  obtain xs where xs: "xs \<in> set X" and out: "spec_outcome a (grid 0 T N) xs = Some (rt, d)"
    using o by (auto simp: List.map_filter_def)
  obtain k where k: "k < length xs" and rt: "rt = grid 0 T N ! k" and d: "d = sgn (spec_force a xs ! k)"
    using spec_outcome_Some[OF out] by blast
  have "k < N" using k rows xs by auto
  then have rtb: "0 \<le> rt \<and> rt \<le> T" using grid_bounds[OF T, of k N] rt by simp
  have db: "\<bar>d\<bar> \<le> 1" using d by (simp add: sgn_real_def)
  have "\<bar>v\<bar> = rt * \<bar>d\<bar>" using vd rtb by (simp add: abs_mult)
  also have "\<dots> \<le> rt * 1" using db rtb by (intro mult_left_mono) auto
  finally have "\<bar>v\<bar> \<le> T" using rtb by simp
  then show ?thesis by linarith
qed

lemma length_signed_rts:
  "length (signed_rts a tspan X) = length (List.map_filter (spec_outcome a tspan) X)"
  by (simp add: signed_rts_def)

lemma param_stats_props:
  assumes mu: "length mu = 1" and nt: "0 < num_trials" and N: "2 \<le> num_steps T dt"
    and T: "0 \<le> T"
  shows "length (param_stats a mu num_trials sigma T y0 nbins dt dW) = nbins - 1"
    and "\<forall>c\<in>set (param_stats a mu num_trials sigma T y0 nbins dt dW). 0 \<le> c"
    and "2 \<le> nbins \<Longrightarrow> sum_list (param_stats a mu num_trials sigma T y0 nbins dt dW) =
           int (length (List.map_filter (spec_outcome a (grid 0 T (num_steps T dt)))
                  (solver_traces mu num_trials sigma T y0 dt dW)))"
proof -
  let ?X = "solver_traces mu num_trials sigma T y0 dt dW"
  let ?tspan = "grid 0 T (num_steps T dt)"
  let ?bins = "grid (- T) T nbins"
  show "length (param_stats a mu num_trials sigma T y0 nbins dt dW) = nbins - 1"
    by (simp add: param_stats_def)
  have "sorted ?bins" using T by (intro sorted_grid) simp
  then have "sorted (search_sorted_inclusive (signed_rts a ?tspan ?X) ?bins)"
    by (rule sorted_search_sorted)
  then show "\<forall>c\<in>set (param_stats a mu num_trials sigma T y0 nbins dt dW). 0 \<le> c"
    unfolding param_stats_def using np_diff_nonneg by blast
  assume nb: "2 \<le> nbins"
  have rows: "\<forall>xs\<in>set ?X. length xs \<le> num_steps T dt"
    using solver_traces_shape(2)[OF mu nt N, of sigma y0 dW] by simp
  have "\<forall>v\<in>set (signed_rts a ?tspan ?X). hd ?bins \<le> v \<and> v \<le> last ?bins"
    using signed_rts_bounds[OF T rows] nb by (simp add: hd_grid last_grid)
  then have "sum_list (np_diff (search_sorted_inclusive (signed_rts a ?tspan ?X) ?bins))
               = int (length (signed_rts a ?tspan ?X))"
    using nb by (intro histogram_sum_in_range) simp_all
  then show "sum_list (param_stats a mu num_trials sigma T y0 nbins dt dW) =
           int (length (List.map_filter (spec_outcome a ?tspan) ?X))"
    by (simp add: param_stats_def length_signed_rts)
qed

lemma param_stats_sum_decisive:
  assumes mu: "length mu = 1" and nt: "0 < num_trials" and N: "2 \<le> num_steps T dt"
    and T: "0 \<le> T" and nb: "2 \<le> nbins"
    and nondeg: "\<forall>xs\<in>set (solver_traces mu num_trials sigma T y0 dt dW).
                    spec_crossing a xs \<noteq> None \<or> last xs \<noteq> 0"
  shows "sum_list (param_stats a mu num_trials sigma T y0 nbins dt dW) = int num_trials"
proof -
  let ?X = "solver_traces mu num_trials sigma T y0 dt dW"
  have sh: "length ?X = num_trials" "\<forall>xs\<in>set ?X. length xs = num_steps T dt"
    using solver_traces_shape[OF mu nt N] by auto
  have "\<forall>xs\<in>set ?X. xs \<noteq> [] \<and> (spec_crossing a xs \<noteq> None \<or> last xs \<noteq> 0)"
    using sh(2) N nondeg by auto
  then have "length (List.map_filter (spec_outcome a (grid 0 T (num_steps T dt))) ?X) = length ?X"
    by (rule outcomes_decisive)
  then show ?thesis using param_stats_props(3)[OF mu nt N T nb] sh(1) by simp
qed

lemma py_int_floor: "0 \<le> x \<Longrightarrow> py_int x = \<lfloor>x\<rfloor>"
  by (simp add: py_int_def)

lemma num_steps_floor: "2 \<le> py_int (T / dt) \<Longrightarrow> int (num_steps T dt) = \<lfloor>T / dt\<rfloor>"
  by (auto simp: num_steps_def py_int_def split: if_splits)

lemma param_traces_shape:
  assumes "length mu = 1" "0 < num_trials" "2 \<le> num_steps T dt"
  shows "length (param_traces a mu num_trials sigma T y0 dt dW) = num_trials"
    and "\<forall>xs\<in>set (param_traces a mu num_trials sigma T y0 dt dW). length xs = num_steps T dt"
  using solver_traces_shape[OF assms, of sigma y0 dW] by (auto simp: param_traces_def)

lemma length_concat_const:
  "\<forall>xs\<in>set xss. length xs = n \<Longrightarrow> length (concat xss) = length xss * n"
  by (induction xss) auto

lemma simulator_shapes:
  assumes co: "coerce_parameters parameters = Inr rows" and ne: "rows \<noteq> []"
    and rows: "\<forall>mu\<in>set rows. length mu = 1" and nt: "1 \<le> num_trials" and dt: "dt \<noteq> 0"
    and N: "2 \<le> py_int (T / dt)" and T: "0 \<le> T" and nb: "0 \<le> nbins"
  shows "\<exists>traces stats.
           simulator parameters num_trials sigma T y0 a True nbins dt dW = Inr (TracesAndStats traces stats) \<and>
           simulator parameters num_trials sigma T y0 a False nbins dt dW = Inr (Stats stats) \<and>
           length traces = length rows * nat num_trials \<and>
           (\<forall>xs\<in>set traces. int (length xs) = \<lfloor>T / dt\<rfloor>) \<and>
           length stats = length rows \<and>
           (\<forall>s\<in>set stats. length s = nat nbins - 1 \<and> (\<forall>c\<in>set s. 0 \<le> c))"
proof -
  let ?nt = "nat num_trials"
  let ?tr = "\<lambda>(i, mu). param_traces a mu ?nt sigma T y0 dt (dW i)"
  let ?st = "\<lambda>(i, mu). param_stats a mu ?nt sigma T y0 (nat nbins) dt (dW i)"
  let ?traces = "concat (map ?tr (enumerate 0 rows))"
  let ?stats = "map ?st (enumerate 0 rows)"
  have N2: "2 \<le> num_steps T dt" using N by (simp add: num_steps_def)
  have nt0: "0 < ?nt" using nt by simp
  have mem: "length mu = 1" if "(i, mu) \<in> set (enumerate 0 rows)" for i mu
    using that rows by (auto simp: in_set_enumerate_eq)
  have each: "\<forall>X\<in>set (map ?tr (enumerate 0 rows)). length X = ?nt"
    using param_traces_shape(1)[OF mem nt0 N2] by auto
  have len: "length ?traces = length rows * ?nt"
    using length_concat_const[OF each] by simp
  have rowlen: "\<forall>xs\<in>set ?traces. int (length xs) = \<lfloor>T / dt\<rfloor>"
    using param_traces_shape(2)[OF mem nt0 N2] num_steps_floor[OF N] by fastforce
  have st: "\<forall>s\<in>set ?stats. length s = nat nbins - 1 \<and> (\<forall>c\<in>set s. 0 \<le> c)"
    using param_stats_props(1,2)[OF mem nt0 N2 T] by fastforce
  show ?thesis
    using simulator_ok[OF co ne rows nt dt N T nb] len rowlen st
    by (intro exI[of _ ?traces] exI[of _ ?stats]) (simp add: Let_def)
qed

lemma simulator_stats_sum:
  assumes co: "coerce_parameters parameters = Inr rows" and ne: "rows \<noteq> []"
    and rows: "\<forall>mu\<in>set rows. length mu = 1" and nt: "1 \<le> num_trials" and dt: "dt \<noteq> 0"
    and N: "2 \<le> py_int (T / dt)" and T: "0 \<le> T" and nb: "2 \<le> nbins"
    and nondeg: "\<forall>(i, mu)\<in>set (enumerate 0 rows).
                   \<forall>xs\<in>set (solver_traces mu (nat num_trials) sigma T y0 dt (dW i)).
                     spec_crossing a xs \<noteq> None \<or> last xs \<noteq> 0"
  shows "\<exists>stats. simulator parameters num_trials sigma T y0 a False nbins dt dW = Inr (Stats stats) \<and>
           (\<forall>s\<in>set stats. sum_list s = num_trials)"
proof -
  let ?nt = "nat num_trials"
  let ?st = "\<lambda>(i, mu). param_stats a mu ?nt sigma T y0 (nat nbins) dt (dW i)"
  let ?stats = "map ?st (enumerate 0 rows)"
  have N2: "2 \<le> num_steps T dt" using N by (simp add: num_steps_def)
  have nt0: "0 < ?nt" using nt by simp
  have nb2: "2 \<le> nat nbins" and nb0: "0 \<le> nbins" using nb by simp_all
  have one: "sum_list (?st (i, mu)) = num_trials" if im: "(i, mu) \<in> set (enumerate 0 rows)" for i mu
  proof -
    have mu: "length mu = 1" using im rows by (auto simp: in_set_enumerate_eq)
    have nd: "\<forall>xs\<in>set (solver_traces mu ?nt sigma T y0 dt (dW i)). spec_crossing a xs \<noteq> None \<or> last xs \<noteq> 0"
      using nondeg im by auto
    show ?thesis using param_stats_sum_decisive[OF mu nt0 N2 T nb2 nd] nt by simp
  qed
  then have "\<forall>s\<in>set ?stats. sum_list s = num_trials" by auto
  then show ?thesis
    using simulator_ok[OF co ne rows nt dt N T nb0, of sigma y0 a False dW]
    by (intro exI[of _ ?stats]) (simp add: Let_def)
qed

subsection \<open>One outcome per trial, apart from the trials that end at zero\<close>

text \<open>When every trial reaches the threshold or ends at a value other than 0, the
  extractor returns one reaction time and one decision per trial; and on the grid of
  the simulator every reaction time lies between 0 and \<open>T\<close>.\<close>

lemma set_trial_slice: "set (trial_slice nt p X) \<subseteq> set X"
  unfolding trial_slice_def by (meson in_set_dropD in_set_takeD subsetI)

lemma rectangular_equal_lengths: "\<forall>r\<in>set rows. length r = n \<Longrightarrow> rectangular rows"
  by (cases rows) (auto simp: rectangular_def list_all_iff)

lemma find_rts_and_decisions_decisive:
  assumes len: "int (length X) = num_parameters * num_trials"
    and rows: "\<forall>xs\<in>set X. xs \<noteq> [] \<and> length xs \<le> length tspan"
    and np: "0 \<le> num_parameters"
    and nondeg: "\<forall>xs\<in>set X. spec_crossing a xs \<noteq> None \<or> last xs \<noteq> 0"
  shows "\<exists>X' rts decisions.
           find_rts_and_decisions X num_parameters num_trials tspan a = Inr (X', rts, decisions) \<and>
           length rts = nat num_parameters \<and> length decisions = nat num_parameters \<and>
           (\<forall>r\<in>set rts. length r = nat num_trials) \<and>
           (\<forall>d\<in>set decisions. length d = nat num_trials)"
proof -
  let ?out = "\<lambda>p. List.map_filter (spec_outcome a tspan) (trial_slice (nat num_trials) p X)"
  have lenX: "length X = nat num_parameters * nat num_trials"
  proof (cases "num_parameters = 0")
    case True
    then show ?thesis using len by simp
  next
    case False
    then have "0 < num_parameters" using np by simp
    then have "0 \<le> num_trials" using len
      by (metis of_nat_0_le_iff zero_le_mult_iff not_less order.asym)
    then show ?thesis using len np by (metis nat_int nat_mult_distrib)
  qed
  have one: "length (?out p) = nat num_trials" if p: "p < nat num_parameters" for p
  proof -
    have "\<forall>xs\<in>set (trial_slice (nat num_trials) p X). xs \<noteq> [] \<and> (spec_crossing a xs \<noteq> None \<or> last xs \<noteq> 0)"
      using rows nondeg set_trial_slice[of "nat num_trials" p X] by blast
    then have "length (?out p) = length (trial_slice (nat num_trials) p X)"
      by (rule outcomes_decisive)
    then show ?thesis using length_trial_slice[OF lenX p] by simp
  qed
  have lens: "\<forall>r\<in>set (spec_outcomes a tspan (nat num_trials) (nat num_parameters) X).
                length r = nat num_trials"
    using one by (auto simp: spec_outcomes_def)
  have rect: "rectangular (spec_outcomes a tspan (nat num_trials) (nat num_parameters) X)"
    using lens by (rule rectangular_equal_lengths)
  have n: "length (spec_outcomes a tspan (nat num_trials) (nat num_parameters) X) = nat num_parameters"
    by (simp add: spec_outcomes_def)
  show ?thesis
    unfolding find_rts_and_decisions_spec[OF len rows np]
    using rect lens n by auto
qed

lemma reaction_times_in_range:
  assumes T: "0 \<le> T" and rows: "\<forall>xs\<in>set X. length xs \<le> N"
    and rt: "rt \<in> set (map fst (List.map_filter (spec_outcome a (grid 0 T N)) X))"
  shows "0 \<le> rt \<and> rt \<le> T"
proof -
  obtain d where "(rt, d) \<in> set (List.map_filter (spec_outcome a (grid 0 T N)) X)"
    using rt by auto
  then obtain xs where xs: "xs \<in> set X" and out: "spec_outcome a (grid 0 T N) xs = Some (rt, d)"
    by (auto simp: List.map_filter_def)
  obtain k where k: "k < length xs" and r: "rt = grid 0 T N ! k"
    using spec_outcome_Some[OF out] by blast
  have "k < N" using k rows xs by auto
  then show ?thesis using grid_bounds[OF T, of k N] r by simp
qed

subsection \<open>A simulation that stays at zero\<close>

lemma solver_traces_at_rest:
  assumes "0 < num_trials" "2 \<le> num_steps T dt"
  shows "solver_traces [0] num_trials 0 T 0 dt dW = replicate num_trials (replicate (num_steps T dt) 0)"
proof -
  let ?N = "num_steps T dt"
  let ?tspan = "grid 0 T ?N"
  let ?h = "(?tspan ! (?N - 1) - ?tspan ! 0) / real (?N - 1)"
  let ?z = "replicate num_trials (0::real)"
  have "?z # ito_rows (concat (map (replicate num_trials) [0])) 0 ?h dW 0 ?z (?N - 1)
          = replicate (Suc (?N - 1)) ?z"
    by (simp add: ito_rows_at_rest)
  also have "Suc (?N - 1) = ?N" using assms(2) by simp
  finally have ys: "?z # ito_rows (concat (map (replicate num_trials) [0])) 0 ?h dW 0 ?z (?N - 1)
          = replicate ?N ?z" .
  have "transpose (replicate ?N ?z) = map (\<lambda>j. map (\<lambda>r. r ! j) (replicate ?N ?z)) [0..<num_trials]"
    using assms(2) by (intro transpose_rect) auto
  also have "\<dots> = replicate num_trials (replicate ?N 0)"
    by (rule nth_equalityI) (simp_all add: map_replicate_const)
  finally show ?thesis
    unfolding solver_traces_def Let_def ys .
qed

lemma spec_crossing_at_rest: "0 < a \<Longrightarrow> spec_crossing a (replicate n 0) = None"
  by (simp add: spec_crossing_def list_ex_iff)

lemma spec_force_at_rest:
  assumes "0 < a"
  shows "spec_force a (replicate n 0) = replicate n 0"
proof (cases n)
  case 0
  then show ?thesis by (simp add: spec_force_def split: option.splits)
next
  case (Suc m)
  then have "last (replicate n (0::real)) = 0" by simp
  then show ?thesis using spec_crossing_at_rest[OF assms] by (intro spec_force_degenerate)
qed

lemma spec_outcome_at_rest: "0 < a \<Longrightarrow> spec_outcome a tspan (replicate n 0) = None"
  by (simp add: spec_outcome_def spec_force_at_rest spec_crossing_at_rest)

lemma map_filter_replicate_None: "f x = None \<Longrightarrow> List.map_filter f (replicate n x) = []"
  by (induction n) (simp_all add: List.map_filter_simps)

lemma param_at_rest:
  assumes "0 < num_trials" "2 \<le> num_steps T dt" "0 < a"
  shows "param_traces a [0] num_trials 0 T 0 dt dW = replicate num_trials (replicate (num_steps T dt) 0)"
    and "param_stats a [0] num_trials 0 T 0 nbins dt dW = replicate (nbins - 1) 0"
proof -
  show "param_traces a [0] num_trials 0 T 0 dt dW = replicate num_trials (replicate (num_steps T dt) 0)"
    using assms by (simp add: param_traces_def solver_traces_at_rest spec_force_at_rest)
  have "signed_rts a (grid 0 T (num_steps T dt)) (replicate num_trials (replicate (num_steps T dt) 0)) = []"
    using assms(3) by (simp add: signed_rts_def map_filter_replicate_None spec_outcome_at_rest)
  then show "param_stats a [0] num_trials 0 T 0 nbins dt dW = replicate (nbins - 1) 0"
    using assms by (simp add: param_stats_def solver_traces_at_rest search_sorted_inclusive_Nil np_diff_zeros)
qed

subsection \<open>The errors of a simulation\<close>

lemma linspace_negative: "num < 0 \<Longrightarrow> linspace start stop num = Inl ValueError"
  by (simp add: linspace_def)

lemma itoEuler_short_grid:
  "length tspan < 2 \<Longrightarrow> itoEuler mu_expanded sigma y0 tspan dW = Inl ValueError"
  by (simp add: itoEuler_def Let_def)

lemma length_repeat [simp]: "length (concat (map (replicate n) xs)) = length xs * n"
  by (induction xs) simp_all

lemma simulate_param_too_few_steps_error:
  assumes "dt = 0 \<or> py_int (T / dt) < 2"
  shows "simulate_param mu num_trials sigma T y0 a nbins dt dW =
           Inl (if 0 \<le> num_trials \<and> dt = 0 then ZeroDivisionError else ValueError)"
proof (cases "num_trials < 0 \<or> dt = 0")
  case True
  then show ?thesis by (auto simp: simulate_param_def)
next
  case False
  then have small: "py_int (T / dt) < 2" using assms by simp
  show ?thesis
  proof (cases "py_int (T / dt) < 0")
    case True
    then show ?thesis using False by (simp add: simulate_param_def linspace_def)
  next
    case neg: False
    then have "linspace 0 T (py_int (T / dt)) = Inr (grid 0 T (nat (py_int (T / dt))))"
      by (simp add: linspace_grid)
    moreover have "length (grid 0 T (nat (py_int (T / dt)))) < 2" using small by simp
    ultimately show ?thesis using False
      by (simp add: simulate_param_def itoEuler_def Let_def)
  qed
qed

lemma simulator_too_few_steps_error:
  assumes "dt = 0 \<or> py_int (T / dt) < 2" "coerce_parameters parameters = Inr (mu # rest)"
  shows "simulator parameters num_trials sigma T y0 a return_traces nbins dt dW =
           Inl (if 0 \<le> num_trials \<and> dt = 0 then ZeroDivisionError else ValueError)"
  by (simp add: simulator_def assms(2) simulate_param_too_few_steps_error[OF assms(1)])

lemma simulator_single_row:
  assumes "coerce_parameters parameters = Inr [mu]"
  shows "simulator parameters num_trials sigma T y0 a return_traces nbins dt dW =
           (case simulate_param mu num_trials sigma T y0 a nbins dt (dW 0) of
              Inl e \<Rightarrow> Inl e
            | Inr (x_traces_param, stats_param) \<Rightarrow>
                Inr (if return_traces then TracesAndStats x_traces_param stats_param
                     else Stats stats_param))"
  by (simp add: simulator_def assms torch_cat_def split: sum.splits)

lemma simulate_param_wrong_dimension:
  assumes "1 \<le> num_trials" "dt \<noteq> 0" "2 \<le> py_int (T / dt)" "length mu \<noteq> 1"
  shows "simulate_param mu num_trials sigma T y0 a nbins dt dW = Inl ValueError"
proof -
  have "linspace 0 T (py_int (T / dt)) = Inr (grid 0 T (nat (py_int (T / dt))))"
    using assms(3) by (simp add: linspace_grid)
  moreover have "length mu * nat num_trials \<noteq> nat num_trials"
    using assms(1,4) by simp
  ultimately show ?thesis using assms(1-3)
    by (simp add: simulate_param_def itoEuler_def Let_def)
qed

lemma simulate_param_run:
  assumes mu: "length mu = 1" and nt: "1 \<le> num_trials" and dt: "dt \<noteq> 0"
    and N: "2 \<le> py_int (T / dt)"
  shows "simulate_param mu num_trials sigma T y0 a nbins dt dW =
           (case calculate_histogram_stats
                   [map fst (List.map_filter (spec_outcome a (grid 0 T (num_steps T dt)))
                      (solver_traces mu (nat num_trials) sigma T y0 dt dW))]
                   [map snd (List.map_filter (spec_outcome a (grid 0 T (num_steps T dt)))
                      (solver_traces mu (nat num_trials) sigma T y0 dt dW))] T nbins of
              Inl e \<Rightarrow> Inl e
            | Inr stats_param \<Rightarrow>
                Inr (param_traces a mu (nat num_trials) sigma T y0 dt dW, stats_param))"
proof -
  let ?nt = "nat num_trials"
  let ?N = "num_steps T dt"
  let ?tspan = "grid 0 T ?N"
  let ?X = "solver_traces mu ?nt sigma T y0 dt dW"
  have N2: "2 \<le> ?N" using N by (simp add: num_steps_def)
  have lin: "linspace 0 T (py_int (T / dt)) = Inr ?tspan"
    using N by (simp add: linspace_grid num_steps_def)
  have mu_e: "length (concat (map (replicate ?nt) mu)) = ?nt"
    using mu by (cases mu) auto
  have ito: "itoEuler (concat (map (replicate ?nt) mu)) sigma (replicate ?nt y0) ?tspan dW =
       Inr (replicate ?nt y0 # ito_rows (concat (map (replicate ?nt) mu)) sigma
                  ((?tspan ! (?N - 1) - ?tspan ! 0) / real (?N - 1)) dW 0 (replicate ?nt y0) (?N - 1))"
    using itoEuler_ok[of ?tspan "concat (map (replicate ?nt) mu)" "replicate ?nt y0" sigma dW] N2 mu_e nt
    by simp
  have shape: "length ?X = ?nt" "\<forall>xs\<in>set ?X. length xs = ?N"
    using solver_traces_shape[OF mu _ N2, of ?nt] nt by auto
  have frd: "find_rts_and_decisions ?X 1 num_trials ?tspan a =
          Inr (map (spec_force a) ?X,
               [map fst (List.map_filter (spec_outcome a ?tspan) ?X)],
               [map snd (List.map_filter (spec_outcome a ?tspan) ?X)])"
  proof -
    have rows: "\<forall>xs\<in>set ?X. xs \<noteq> [] \<and> length xs \<le> length ?tspan"
      using shape(2) N2 by auto
    have len: "int (length ?X) = 1 * num_trials" using shape(1) nt by simp
    show ?thesis
      using find_rts_and_decisions_spec[OF len rows, of a] shape(1) nt
      by (simp add: trial_slice_def spec_outcomes_def rectangular_def)
  qed
  show ?thesis
    unfolding simulate_param_def
    using nt dt lin ito frd
    by (simp add: Let_def solver_traces_def param_traces_def split: sum.splits)
qed

lemma simulate_param_Inr:
  assumes "simulate_param mu num_trials sigma T y0 a nbins dt dW = Inr (x_traces_param, stats_param)"
  shows "length mu = 1 \<and> 1 \<le> num_trials \<and> dt \<noteq> 0 \<and> 2 \<le> py_int (T / dt) \<and>
         x_traces_param = param_traces a mu (nat num_trials) sigma T y0 dt dW"
proof -
  have steps: "dt \<noteq> 0 \<and> 2 \<le> py_int (T / dt)"
    using assms simulate_param_too_few_steps[of dt T mu num_trials sigma y0 a nbins dW]
    by (cases "dt = 0 \<or> py_int (T / dt) < 2") auto
  have nt0: "0 \<le> num_trials" using assms by (auto simp: simulate_param_def split: if_splits)
  have lin: "linspace 0 T (py_int (T / dt)) = Inr (grid 0 T (nat (py_int (T / dt))))"
    using steps by (simp add: linspace_grid)
  have N2: "\<not> nat (py_int (T / dt)) < 2" using steps by linarith
  have nt: "1 \<le> num_trials"
  proof (rule ccontr)
    assume "\<not> 1 \<le> num_trials"
    then have "nat num_trials = 0" by simp
    then have "simulate_param mu num_trials sigma T y0 a nbins dt dW = Inl IndexError"
      using nt0 steps lin N2 by (simp add: simulate_param_def itoEuler_def Let_def)
    then show False using assms by simp
  qed
  have mu: "length mu = 1"
  proof (rule ccontr)
    assume "length mu \<noteq> 1"
    then have "simulate_param mu num_trials sigma T y0 a nbins dt dW = Inl ValueError"
      using nt steps by (intro simulate_param_wrong_dimension) auto
    then show False using assms by simp
  qed
  have "x_traces_param = param_traces a mu (nat num_trials) sigma T y0 dt dW"
    using assms simulate_param_run[OF mu nt, of dt T sigma y0 a nbins dW] steps
    by (auto split: sum.splits)
  then show ?thesis using mu nt steps by simp
qed

lemma simulate_loop_Inr:
  assumes "simulate_loop k rows num_trials sigma T y0 a nbins dt dW x_traces stats = Inr (x_traces', stats')"
  shows "\<exists>blocks. x_traces' = x_traces @ blocks \<and>
           (\<forall>B\<in>set blocks. \<forall>xs\<in>set B. int (length xs) = \<lfloor>T / dt\<rfloor>)"
  using assms
proof (induction rows arbitrary: k x_traces stats)
  case Nil
  then show ?case by simp
next
  case (Cons mu rest)
  obtain xt st where sp: "simulate_param mu num_trials sigma T y0 a nbins dt (dW k) = Inr (xt, st)"
    using Cons.prems by (auto split: sum.splits)
  then have rec: "simulate_loop (Suc k) rest num_trials sigma T y0 a nbins dt dW
                    (x_traces @ [xt]) (stats @ [st]) = Inr (x_traces', stats')"
    using Cons.prems by simp
  from Cons.IH[OF rec] obtain blocks where b: "x_traces' = (x_traces @ [xt]) @ blocks"
    and bl: "\<forall>B\<in>set blocks. \<forall>xs\<in>set B. int (length xs) = \<lfloor>T / dt\<rfloor>" by blast
  have facts: "length mu = 1" "1 \<le> num_trials" "2 \<le> py_int (T / dt)"
    and xt: "xt = param_traces a mu (nat num_trials) sigma T y0 dt (dW k)"
    using simulate_param_Inr[OF sp] by auto
  have "\<forall>xs\<in>set xt. length xs = num_steps T dt"
    unfolding xt using facts by (intro param_traces_shape(2)) (simp_all add: num_steps_def)
  then have "\<forall>xs\<in>set xt. int (length xs) = \<lfloor>T / dt\<rfloor>"
    using num_steps_floor[OF facts(3)] by simp
  then show ?case using b bl by (intro exI[of _ "xt # blocks"]) simp
qed

lemma simulator_trace_lengths:
  assumes "simulator parameters num_trials sigma T y0 a return_traces nbins dt dW
             = Inr (TracesAndStats traces stats)"
  shows "\<forall>xs\<in>set traces. int (length xs) = \<lfloor>T / dt\<rfloor>"
proof -
  obtain rows where co: "coerce_parameters parameters = Inr rows"
    using assms by (auto simp: simulator_def split: sum.splits)
  obtain xts sts where lp: "simulate_loop 0 rows num_trials sigma T y0 a nbins dt dW [] [] = Inr (xts, sts)"
    using assms co by (auto simp: simulator_def split: sum.splits)
  have "traces = concat xts"
    using assms co lp by (auto simp: simulator_def torch_cat_def split: sum.splits if_splits)
  moreover obtain blocks where "xts = [] @ blocks"
    "\<forall>B\<in>set blocks. \<forall>xs\<in>set B. int (length xs) = \<lfloor>T / dt\<rfloor>"
    using simulate_loop_Inr[OF lp] by blast
  ultimately show ?thesis by auto
qed

subsection \<open>Trials whose noise is the same at every step\<close>

lemma ito_rows_constant_noise:
  assumes "\<And>n. dW n j = c" "k < m" "j < length y"
  shows "ito_rows f sigma h dW n y m ! k ! j = y ! j + real (Suc k) * (f ! j * h + sigma * c)"
  using assms(2,3)
proof (induction m arbitrary: n y k)
  case 0
  then show ?case by simp
next
  case (Suc m)
  let ?y' = "map (\<lambda>j. y ! j + f ! j * h + sigma * dW n j) [0..<length y]"
  show ?case
  proof (cases k)
    case 0
    then show ?thesis using Suc.prems assms(1) by (simp add: Let_def)
  next
    case (Suc k')
    then have k': "k' < m" using Suc.prems by simp
    have j': "j < length ?y'" using Suc.prems by simp
    have "ito_rows f sigma h dW n y (Suc m) ! k ! j = ito_rows f sigma h dW (Suc n) ?y' m ! k' ! j"
      using Suc by (simp add: Let_def)
    also have "\<dots> = ?y' ! j + real (Suc k') * (f ! j * h + sigma * c)"
      by (rule Suc.IH[OF k' j'])
    also have "?y' ! j = y ! j + (f ! j * h + sigma * c)"
      using Suc.prems assms(1) by simp
    finally show ?thesis using Suc by (simp add: algebra_simps)
  qed
qed

lemma grid_step: "2 \<le> n \<Longrightarrow> (grid 0 T n ! (n - 1) - grid 0 T n ! 0) / real (n - 1) = T / real (n - 1)"
  by (simp add: nth_grid)

lemma solver_traces_constant_noise:
  assumes nt: "0 < num_trials" and N: "2 \<le> num_steps T dt" and c: "\<And>n j. dW n j = c j"
  shows "solver_traces [mu] num_trials sigma T y0 dt dW =
           map (\<lambda>j. map (\<lambda>k. y0 + real k * (mu * (T / real (num_steps T dt - 1)) + sigma * c j))
                      [0..<num_steps T dt])
               [0..<num_trials]"
proof -
  let ?N = "num_steps T dt"
  let ?h = "T / real (?N - 1)"
  let ?f = "concat (map (replicate num_trials) [mu])"
  let ?y0 = "replicate num_trials y0"
  let ?ys = "?y0 # ito_rows ?f sigma ?h dW 0 ?y0 (?N - 1)"
  have rect: "\<forall>r\<in>set ?ys. length r = num_trials"
    using ito_rows_row_length[of _ ?f sigma ?h dW 0 ?y0 "?N - 1"] by auto
  have tr: "transpose ?ys = map (\<lambda>j. map (\<lambda>r. r ! j) ?ys) [0..<num_trials]"
    by (rule transpose_rect[OF _ rect]) simp
  have lenys: "length ?ys = ?N" using N by simp
  have entry: "?ys ! k ! j = y0 + real k * (mu * ?h + sigma * c j)"
    if k: "k < ?N" and j: "j < num_trials" for k j
  proof (cases k)
    case 0
    then show ?thesis using j by simp
  next
    case (Suc k')
    then have "k' < ?N - 1" using k by simp
    then have "ito_rows ?f sigma ?h dW 0 ?y0 (?N - 1) ! k' ! j
                 = ?y0 ! j + real (Suc k') * (?f ! j * ?h + sigma * c j)"
      using j c by (intro ito_rows_constant_noise) simp_all
    then show ?thesis using Suc j by simp
  qed
  have "map (\<lambda>j. map (\<lambda>r. r ! j) ?ys) [0..<num_trials] =
        map (\<lambda>j. map (\<lambda>k. y0 + real k * (mu * ?h + sigma * c j)) [0..<?N]) [0..<num_trials]"
  proof (rule map_cong[OF refl])
    fix j assume "j \<in> set [0..<num_trials]"
    then have j: "j < num_trials" by simp
    show "map (\<lambda>r. r ! j) ?ys = map (\<lambda>k. y0 + real k * (mu * ?h + sigma * c j)) [0..<?N]"
    proof (rule nth_equalityI)
      show "length (map (\<lambda>r. r ! j) ?ys) =
            length (map (\<lambda>k. y0 + real k * (mu * ?h + sigma * c j)) [0..<?N])"
        using lenys by (simp only: length_map length_upt minus_nat.diff_0)
    next
      fix i assume "i < length (map (\<lambda>r. r ! j) ?ys)"
      then have i: "i < ?N" using lenys by (simp only: length_map)
      have "map (\<lambda>r. r ! j) ?ys ! i = ?ys ! i ! j"
        using i lenys by (simp only: nth_map)
      also have "\<dots> = y0 + real i * (mu * ?h + sigma * c j)"
        using entry[OF i j] .
      also have "\<dots> = map (\<lambda>k. y0 + real k * (mu * ?h + sigma * c j)) [0..<?N] ! i"
        using i by simp
      finally show "map (\<lambda>r. r ! j) ?ys ! i =
            map (\<lambda>k. y0 + real k * (mu * ?h + sigma * c j)) [0..<?N] ! i" .
    qed
  qed
  then show ?thesis
    unfolding solver_traces_def Let_def grid_step[OF N] using tr by simp
qed

subsection \<open>The scenario of the specification: drift 0.3 and 50 trials\<close>

lemma num_steps_scenario: "num_steps 5 (1/100) = 500"
  by (simp add: num_steps_def py_int_def)

lemma solver_traces_no_noise:
  "solver_traces [3/10] 50 (1/5) 5 0 (1/100) (no_noise p) = replicate 50 drift_ramp"
proof -
  have "solver_traces [3/10] 50 (1/5) 5 0 (1/100) (no_noise p) =
          map (\<lambda>j. map (\<lambda>k. 0 + real k * (3/10 * (5 / real (num_steps 5 (1/100) - 1)) + 1/5 * 0))
                     [0..<num_steps 5 (1/100)]) [0..<50]"
    by (rule solver_traces_constant_noise) (simp_all add: num_steps_scenario no_noise_def)
  also have "\<dots> = map (\<lambda>j. drift_ramp) [0..<50]"
    by (simp add: num_steps_scenario drift_ramp_def)
  also have "\<dots> = replicate 50 drift_ramp"
    by (simp add: map_replicate_const)
  finally show ?thesis .
qed


lemma last_drift_ramp: "last drift_ramp = 3/2"
proof -
  have "[0..<500] = [0..<499] @ [499]"
    using upt_Suc_append[of 0 499] by simp
  then have e: "drift_ramp = map (\<lambda>k. real k * (3 / 998)) [0..<499] @ [real 499 * (3 / 998)]"
    by (simp add: drift_ramp_def)
  have "last (map (\<lambda>k. real k * (3 / 998)) [0..<499] @ [real 499 * (3 / 998)]) = 3/2"
    by (simp only: last_snoc)
  then show ?thesis using e by (rule ssubst[where P="\<lambda>t. last t = 3/2", rotated])
qed

lemma drift_ramp_crosses: "(\<not> 1 \<le> \<bar>real k * (3 / 998)\<bar>) = (k < 333)"
proof -
  have "1 \<le> \<bar>real k * (3 / 998)\<bar> \<longleftrightarrow> real 998 \<le> real (3 * k)"
    by (simp add: abs_mult field_simps)
  also have "\<dots> \<longleftrightarrow> 998 \<le> 3 * k" by (simp only: of_nat_le_iff)
  also have "\<dots> \<longleftrightarrow> 333 \<le> k" by arith
  finally show ?thesis by auto
qed

lemma takeWhile_upt_less: "m \<le> n \<Longrightarrow> takeWhile (\<lambda>k. k < m) [0..<n] = [0..<m]"
proof -
  assume mn: "m \<le> n"
  have "[0..<n] = [0..<m] @ [m..<n]" using upt_add_eq_append[of 0 m "n - m"] mn by simp
  moreover have "takeWhile (\<lambda>k. k < m) ([0..<m] @ [m..<n]) = [0..<m] @ takeWhile (\<lambda>k. k < m) [m..<n]"
    by (rule takeWhile_append2) simp
  moreover have "takeWhile (\<lambda>k. k < m) [m..<n] = []"
    by (cases "m < n") (simp_all add: upt_conv_Cons)
  ultimately show ?thesis by simp
qed

lemma spec_crossing_drift_ramp: "spec_crossing 1 drift_ramp = Some 333"
proof -
  have "3/2 \<in> set drift_ramp"
    using last_in_set[of drift_ramp] last_drift_ramp by (simp add: drift_ramp_def)
  then have ex: "list_ex (\<lambda>x. 1 \<le> \<bar>x\<bar>) drift_ramp"
    unfolding list_ex_iff by (intro bexI[of _ "3/2"]) simp_all
  have c: "(\<lambda>x. \<not> 1 \<le> \<bar>x\<bar>) \<circ> (\<lambda>k. real k * (3 / 998)) = (\<lambda>k. k < 333)"
    by (rule ext) (simp only: comp_def drift_ramp_crosses)
  have "takeWhile (\<lambda>x. \<not> 1 \<le> \<bar>x\<bar>) drift_ramp =
          map (\<lambda>k. real k * (3 / 998)) (takeWhile (\<lambda>k. k < 333) [0..<500])"
    unfolding drift_ramp_def takeWhile_map c ..
  then have "length (takeWhile (\<lambda>x. \<not> 1 \<le> \<bar>x\<bar>) drift_ramp) = 333"
    by (simp add: takeWhile_upt_less)
  then show ?thesis using ex by (simp add: spec_crossing_def)
qed

lemma spec_force_drift_ramp: "spec_force 1 drift_ramp = drift_ramp"
  by (simp add: spec_force_def spec_crossing_drift_ramp)

lemma spec_outcome_drift_ramp:
  "spec_outcome 1 (grid 0 5 500) drift_ramp = Some (1665 / 499, 1)"
proof -
  have "drift_ramp ! 333 = real 333 * (3 / 998)" by (simp add: drift_ramp_def)
  then have "sgn (drift_ramp ! 333) = 1" by simp
  moreover have "grid 0 5 500 ! 333 = 1665 / 499" by (simp add: nth_grid)
  ultimately show ?thesis
    by (simp add: spec_outcome_def spec_force_drift_ramp spec_crossing_drift_ramp)
qed

lemma map_filter_replicate_Some:
  "f x = Some y \<Longrightarrow> List.map_filter f (replicate n x) = replicate n y"
  by (induction n) (simp_all add: List.map_filter_simps)

lemma outcomes_drift_ramp:
  "List.map_filter (spec_outcome 1 (grid 0 5 500)) (replicate n drift_ramp) = replicate n (1665 / 499, 1)"
  using spec_outcome_drift_ramp by (rule map_filter_replicate_Some)

lemma signed_rts_drift_ramp:
  "signed_rts 1 (grid 0 5 500) (replicate n drift_ramp) = replicate n (1665 / 499)"
  by (simp add: signed_rts_def outcomes_drift_ramp map2_fst_snd map_replicate_const)


lemma grid_20: "grid (- 5) 5 20 = map (\<lambda>i. - 5 + real i * (10 / 19)) [0..<20]"
  by (simp add: grid_def)

lemma upt_20: "[0..<20] = [0,1,2,3,4,5,6,7,8,9,10,11,12,13,14,15,16,17,18,19]"
  by (simp add: upt_conv_Cons)

lemma histogram_drift_ramp:
  "np_diff (search_sorted_inclusive (replicate n (1665 / 499)) (grid (- 5) 5 20)) =
     replicate 15 0 @ [int n] @ replicate 3 0"
  unfolding grid_20 upt_20
  by (simp add: search_sorted_inclusive_def np_diff_Cons2 eval_nat_numeral)



lemma param_traces_no_noise:
  "param_traces 1 [3/10] 50 (1/5) 5 0 (1/100) (no_noise p) = replicate 50 drift_ramp"
  by (simp add: param_traces_def solver_traces_no_noise spec_force_drift_ramp)

lemma param_stats_no_noise:
  "param_stats 1 [3/10] 50 (1/5) 5 0 20 (1/100) (no_noise p) =
     replicate 15 0 @ [50] @ replicate 3 0"
  unfolding param_stats_def solver_traces_no_noise num_steps_scenario
    signed_rts_drift_ramp histogram_drift_ramp by simp

subsection \<open>A batch of one row\<close>

lemma simulator_one_parameter:
  assumes co: "coerce_parameters parameters = Inr [[x]]" and nt: "1 \<le> num_trials" and dt: "dt \<noteq> 0"
    and N: "2 \<le> py_int (T / dt)" and T: "0 \<le> T" and nb: "0 \<le> nbins"
  shows "simulator parameters num_trials sigma T y0 a return_traces nbins dt dW =
           Inr (if return_traces
                then TracesAndStats (param_traces a [x] (nat num_trials) sigma T y0 dt (dW 0))
                       [param_stats a [x] (nat num_trials) sigma T y0 (nat nbins) dt (dW 0)]
                else Stats [param_stats a [x] (nat num_trials) sigma T y0 (nat nbins) dt (dW 0)])"
  by (subst simulator_ok[OF co _ _ nt dt N T nb]) (simp_all add: enumerate_simps)

lemma simulator_wrong_dimension:
  assumes "coerce_parameters parameters = Inr [mu]" "1 \<le> num_trials" "dt \<noteq> 0"
    "2 \<le> py_int (T / dt)" "length mu \<noteq> 1"
  shows "simulator parameters num_trials sigma T y0 a return_traces nbins dt dW = Inl ValueError"
  by (simp add: simulator_single_row[OF assms(1)] simulate_param_wrong_dimension[OF assms(2-5)])

subsection \<open>Every run of the scenario\<close>

text \<open>Every run of the scenario, whatever the noise, returns 50 traces of 500 points
  and one summary vector of 19 counts; they sum to 50 when no undecided trial ends at
  exactly 0.\<close>

lemma simulator_scenario:
  "\<exists>traces stats.
     simulator (Tensor2 [[3/10]]) 50 (1/5) 5 0 1 True 20 (1/100) dW = Inr (TracesAndStats traces [stats]) \<and>
     length traces = 50 \<and> (\<forall>xs\<in>set traces. length xs = 500) \<and> length stats = 19 \<and>
     ((\<forall>xs\<in>set (solver_traces [3/10] 50 (1/5) 5 0 (1/100) (dW 0)). spec_crossing 1 xs \<noteq> None \<or> last xs \<noteq> 0)
        \<longrightarrow> sum_list stats = 50)"
proof -
  let ?traces = "param_traces 1 [3/10] 50 (1/5) 5 0 (1/100) (dW 0)"
  let ?stats = "param_stats 1 [3/10] 50 (1/5) 5 0 20 (1/100) (dW 0)"
  have N: "2 \<le> num_steps 5 (1/100)" by (simp add: num_steps_scenario)
  have "simulator (Tensor2 [[3/10]]) 50 (1/5) 5 0 1 True 20 (1/100) dW =
          Inr (TracesAndStats (param_traces 1 [3/10] (nat 50) (1/5) 5 0 (1/100) (dW 0))
                 [param_stats 1 [3/10] (nat 50) (1/5) 5 0 (nat 20) (1/100) (dW 0)])"
    by (subst simulator_one_parameter[of _ "3/10"]) (simp_all add: coerce_parameters_def py_int_def)
  then have run: "simulator (Tensor2 [[3/10]]) 50 (1/5) 5 0 1 True 20 (1/100) dW =
          Inr (TracesAndStats ?traces [?stats])" by simp
  have shape: "length ?traces = 50" "\<forall>xs\<in>set ?traces. length xs = 500"
    using param_traces_shape[of "[3/10]" 50 5 "1/100" 1 "1/5" 0 "dW 0"] N
    by (simp_all add: num_steps_scenario)
  have len: "length ?stats = 19"
    using param_stats_props(1)[of "[3/10]" 50 5 "1/100" 1 "1/5" 0 20 "dW 0"] N by simp
  have sum: "sum_list ?stats = 50"
    if "\<forall>xs\<in>set (solver_traces [3/10] 50 (1/5) 5 0 (1/100) (dW 0)). spec_crossing 1 xs \<noteq> None \<or> last xs \<noteq> 0"
    using param_stats_sum_decisive[of "[3/10]" 50 5 "1/100" 20 "1/5" 0 "dW 0" 1] N that by simp
  show ?thesis
    using run shape len sum by (intro exI[of _ ?traces] exI[of _ ?stats]) simp
qed

subsection \<open>The claims about \<open>simulator\<close>\<close>

text \<open>
  Claim C2 says that every summary vector sums to \<open>num_trials\<close>. Its length \<open>nbins - 1\<close>
  and its non-negative entries hold for every valid configuration, and so does the sum
  when no undecided trial ends at exactly 0 (the lemmas above). With drift 0, noise
  level 0 and start 0 every trial of every run stays at 0: all trials are undecided,
  the forced value is 0, no trial has an outcome, and the summary vector returned for
  \<^verbatim>\<open>simulator(torch.tensor([[0.0]]), sigma=0.0)\<close> holds 19 zeros instead of summing to
  100.
\<close>

theorem simulator_stats_at_rest:
  "simulator (Tensor2 [[0]]) 100 0 5 0 1 False 20 (1/100) dW = Inr (Stats [replicate 19 0])"
proof -
  have N: "num_steps 5 (1/100) = 500" by (simp add: num_steps_def py_int_def)
  have "simulator (Tensor2 [[0]]) 100 0 5 0 1 False 20 (1/100) dW =
          Inr (Stats [param_stats 1 [0] (nat 100) 0 5 0 (nat 20) (1/100) (dW 0)])"
    by (subst simulator_ok[of _ "[[0]]"]) (simp_all add: coerce_parameters_def py_int_def enumerate_simps)
  then show ?thesis using param_at_rest(2)[of 100 5 "1/100" 1 20 "dW 0"] N by simp
qed


text \<open>
  Claim C3, as amended. \<open>simulator\<close> does not check the boundary: with a grid of at
  least two points (\<open>dt \<noteq> 0\<close>, \<open>int(T / dt) \<ge> 2\<close>, \<open>T \<ge> 0\<close>), at least one trial, a
  non-negative \<open>nbins\<close> and a non-empty batch of one-dimensional parameters the call
  returns for every boundary \<open>a\<close>, zero and negative ones included. When \<open>dt\<close> and \<open>T\<close>
  give fewer than two time steps (or \<open>dt = 0\<close>) the call fails for every parameter
  argument. The body of the loop then fails for every parameter row, and with it the
  call on a batch that is not empty, in the first pass through the loop: with
  ZeroDivisionError from \<open>T / dt\<close> when \<open>dt = 0\<close> and \<open>num_trials\<close> is not negative, and
  with ValueError otherwise. When \<open>num_trials\<close> is not negative and \<open>dt \<noteq> 0\<close> that
  ValueError is the one of \<open>np.linspace\<close> for a negative count, or, for a grid of 0 or
  1 points, the one of the solver's check of its arguments, whatever the drift vector,
  the start values and the increments: no trajectory is integrated.
\<close>

theorem simulator_configuration:
  "(coerce_parameters parameters = Inr rows \<and> rows \<noteq> [] \<and> (\<forall>mu\<in>set rows. length mu = 1) \<and>
    1 \<le> num_trials \<and> dt \<noteq> 0 \<and> 2 \<le> py_int (T / dt) \<and> 0 \<le> T \<and> 0 \<le> nbins
      \<longrightarrow> \<not> isl (simulator parameters num_trials sigma T y0 a return_traces nbins dt dW)) \<and>
   (dt = 0 \<or> py_int (T / dt) < 2
      \<longrightarrow> isl (simulator parameters num_trials sigma T y0 a return_traces nbins dt dW) \<and>
          simulate_param mu num_trials sigma T y0 a nbins dt (dW 0) =
            Inl (if 0 \<le> num_trials \<and> dt = 0 then ZeroDivisionError else ValueError) \<and>
          (coerce_parameters parameters = Inr (mu # rest)
             \<longrightarrow> simulator parameters num_trials sigma T y0 a return_traces nbins dt dW =
                   Inl (if 0 \<le> num_trials \<and> dt = 0 then ZeroDivisionError else ValueError))) \<and>
   (py_int (T / dt) < 0 \<longrightarrow> linspace 0 T (py_int (T / dt)) = Inl ValueError) \<and>
   (0 \<le> py_int (T / dt) \<and> py_int (T / dt) < 2
      \<longrightarrow> linspace 0 T (py_int (T / dt)) = Inr (grid 0 T (num_steps T dt)) \<and>
          itoEuler mu_expanded sigma y0_expanded (grid 0 T (num_steps T dt)) dW' = Inl ValueError)"
proof (intro conjI impI)
  assume "coerce_parameters parameters = Inr rows \<and> rows \<noteq> [] \<and> (\<forall>mu\<in>set rows. length mu = 1) \<and>
    1 \<le> num_trials \<and> dt \<noteq> 0 \<and> 2 \<le> py_int (T / dt) \<and> 0 \<le> T \<and> 0 \<le> nbins"
  then show "\<not> isl (simulator parameters num_trials sigma T y0 a return_traces nbins dt dW)"
    by (simp add: simulator_ok)
next
  assume "dt = 0 \<or> py_int (T / dt) < 2"
  then show "isl (simulator parameters num_trials sigma T y0 a return_traces nbins dt dW)"
    by (rule simulator_too_few_steps)
next
  assume "dt = 0 \<or> py_int (T / dt) < 2"
  then show "simulate_param mu num_trials sigma T y0 a nbins dt (dW 0) =
            Inl (if 0 \<le> num_trials \<and> dt = 0 then ZeroDivisionError else ValueError)"
    by (rule simulate_param_too_few_steps_error)
next
  assume "dt = 0 \<or> py_int (T / dt) < 2" and "coerce_parameters parameters = Inr (mu # rest)"
  then show "simulator parameters num_trials sigma T y0 a return_traces nbins dt dW =
                   Inl (if 0 \<le> num_trials \<and> dt = 0 then ZeroDivisionError else ValueError)"
    by (rule simulator_too_few_steps_error)
next
  assume "py_int (T / dt) < 0"
  then show "linspace 0 T (py_int (T / dt)) = Inl ValueError"
    by (rule linspace_negative)
next
  assume "0 \<le> py_int (T / dt) \<and> py_int (T / dt) < 2"
  then show "linspace 0 T (py_int (T / dt)) = Inr (grid 0 T (num_steps T dt))"
    by (simp add: linspace_grid num_steps_def)
next
  assume "0 \<le> py_int (T / dt) \<and> py_int (T / dt) < 2"
  then have "nat (py_int (T / dt)) < 2" by linarith
  then have "length (grid 0 T (num_steps T dt)) < 2" by (simp add: num_steps_def)
  then show "itoEuler mu_expanded sigma y0_expanded (grid 0 T (num_steps T dt)) dW' = Inl ValueError"
    by (rule itoEuler_short_grid)
qed

text \<open>The default configuration with the boundary \<open>-1\<close> returns; with \<open>T = 1\<close> and \<open>dt = 1\<close>
  the grid has one point and the solver refuses it; with \<open>dt = 0\<close> the division fails;
  with \<open>T = -5\<close> the count is negative and \<open>np.linspace\<close> refuses it.\<close>

theorem simulator_configuration_witness:
  "\<not> isl (simulator (PyFloat (3/10)) 50 (1/5) 5 0 (- 1) True 20 (1/100) no_noise) \<and>
   simulator (PyFloat (3/10)) 50 (1/5) 1 0 1 True 20 1 no_noise = Inl ValueError \<and>
   simulate_param [3/10] 50 (1/5) 1 0 1 20 1 (no_noise 0) = Inl ValueError \<and>
   linspace 0 1 1 = Inr (grid 0 1 1) \<and>
   itoEuler (replicate 50 (3/10)) (1/5) (replicate 50 0) (grid 0 1 1) (no_noise 0) = Inl ValueError \<and>
   simulator (PyFloat (3/10)) 50 (1/5) 5 0 1 True 20 0 no_noise = Inl ZeroDivisionError \<and>
   simulator (PyFloat (3/10)) 50 (1/5) (- 5) 0 1 True 20 (1/100) no_noise = Inl ValueError \<and>
   linspace 0 (- 5) (- 500) = Inl ValueError"
  using simulator_configuration[where parameters = "PyFloat (3/10)" and rows = "[[3/10]]"
      and num_trials = 50 and dt = "1/100" and T = 5 and nbins = 20 and sigma = "1/5" and ?y0.0 = 0
      and a = "- 1" and return_traces = True and dW = no_noise]
    simulator_configuration[where parameters = "PyFloat (3/10)" and rows = "[[3/10]]"
      and num_trials = 50 and dt = 1 and T = 1 and nbins = 20 and sigma = "1/5" and ?y0.0 = 0
      and a = 1 and return_traces = True and dW = no_noise and mu = "[3/10]" and rest = "[]"
      and mu_expanded = "replicate 50 (3/10)" and y0_expanded = "replicate 50 0" and dW' = "no_noise 0"]
    simulator_configuration[where parameters = "PyFloat (3/10)" and rows = "[[3/10]]"
      and num_trials = 50 and dt = 0 and T = 5 and nbins = 20 and sigma = "1/5" and ?y0.0 = 0
      and a = 1 and return_traces = True and dW = no_noise and mu = "[3/10]" and rest = "[]"]
    simulator_configuration[where parameters = "PyFloat (3/10)" and rows = "[[3/10]]"
      and num_trials = 50 and dt = "1/100" and T = "- 5" and nbins = 20 and sigma = "1/5" and ?y0.0 = 0
      and a = 1 and return_traces = True and dW = no_noise and mu = "[3/10]" and rest = "[]"]
  by (simp add: coerce_parameters_def py_int_def num_steps_def)

text \<open>The claim as stated fails: the default configuration with the boundary \<open>a = -1\<close>
  does not fail.\<close>

theorem nonpositive_boundary_accepted_counterexample:
  "\<not> isl (simulator (PyFloat (3/10)) 100 (1/5) 5 0 (- 1) False 20 (1/100) no_noise)"
  by (subst simulator_ok[of _ "[[3/10]]"]) (simp_all add: coerce_parameters_def py_int_def)

text \<open>
  Claim C10, as amended. A Python float becomes the batch of one row with one entry,
  and a tensor of dimension 1 and any length \<open>k\<close> becomes the batch of the one row of
  its \<open>k\<close> entries: the loop of \<open>simulator\<close> runs once, on that row, and the result of the
  call is the result of that pass. With a grid of at least two points, at least one
  trial and a non-negative \<open>nbins\<close> the call returns for a float and for a tensor of
  one entry, with the traces and the statistics of that one parameter. For a tensor
  of any other length the row is no parameter of the model: the solver refuses the
  drift vector of \<open>k * num_trials\<close> entries and the call raises ValueError.
\<close>

theorem simulator_single_row_batch:
  "coerce_parameters (PyFloat x) = Inr [[x]] \<and>
   coerce_parameters (Tensor1 xs) = Inr [xs] \<and>
   simulator (PyFloat x) num_trials sigma T y0 a return_traces nbins dt dW =
     (case simulate_param [x] num_trials sigma T y0 a nbins dt (dW 0) of
        Inl e \<Rightarrow> Inl e
      | Inr (x_traces_param, stats_param) \<Rightarrow>
          Inr (if return_traces then TracesAndStats x_traces_param stats_param
               else Stats stats_param)) \<and>
   simulator (Tensor1 xs) num_trials sigma T y0 a return_traces nbins dt dW =
     (case simulate_param xs num_trials sigma T y0 a nbins dt (dW 0) of
        Inl e \<Rightarrow> Inl e
      | Inr (x_traces_param, stats_param) \<Rightarrow>
          Inr (if return_traces then TracesAndStats x_traces_param stats_param
               else Stats stats_param)) \<and>
   (1 \<le> num_trials \<and> dt \<noteq> 0 \<and> 2 \<le> py_int (T / dt) \<and> 0 \<le> T \<and> 0 \<le> nbins
      \<longrightarrow> simulator (PyFloat x) num_trials sigma T y0 a return_traces nbins dt dW =
            Inr (if return_traces
                 then TracesAndStats (param_traces a [x] (nat num_trials) sigma T y0 dt (dW 0))
                        [param_stats a [x] (nat num_trials) sigma T y0 (nat nbins) dt (dW 0)]
                 else Stats [param_stats a [x] (nat num_trials) sigma T y0 (nat nbins) dt (dW 0)]) \<and>
          simulator (Tensor1 [x]) num_trials sigma T y0 a return_traces nbins dt dW =
            Inr (if return_traces
                 then TracesAndStats (param_traces a [x] (nat num_trials) sigma T y0 dt (dW 0))
                        [param_stats a [x] (nat num_trials) sigma T y0 (nat nbins) dt (dW 0)]
                 else Stats [param_stats a [x] (nat num_trials) sigma T y0 (nat nbins) dt (dW 0)])) \<and>
   (1 \<le> num_trials \<and> dt \<noteq> 0 \<and> 2 \<le> py_int (T / dt) \<and> length xs \<noteq> 1
      \<longrightarrow> simulator (Tensor1 xs) num_trials sigma T y0 a return_traces nbins dt dW = Inl ValueError)"
proof -
  have f: "coerce_parameters (PyFloat x) = Inr [[x]]" for x
    by (simp add: coerce_parameters_def)
  have t: "coerce_parameters (Tensor1 xs) = Inr [xs]" for xs
    by (simp add: coerce_parameters_def)
  show ?thesis
  proof (intro conjI impI)
    show "coerce_parameters (PyFloat x) = Inr [[x]]" by (rule f)
    show "coerce_parameters (Tensor1 xs) = Inr [xs]" by (rule t)
    show "simulator (PyFloat x) num_trials sigma T y0 a return_traces nbins dt dW =
       (case simulate_param [x] num_trials sigma T y0 a nbins dt (dW 0) of
          Inl e \<Rightarrow> Inl e
        | Inr (x_traces_param, stats_param) \<Rightarrow>
            Inr (if return_traces then TracesAndStats x_traces_param stats_param
                 else Stats stats_param))"
      by (rule simulator_single_row[OF f])
    show "simulator (Tensor1 xs) num_trials sigma T y0 a return_traces nbins dt dW =
       (case simulate_param xs num_trials sigma T y0 a nbins dt (dW 0) of
          Inl e \<Rightarrow> Inl e
        | Inr (x_traces_param, stats_param) \<Rightarrow>
            Inr (if return_traces then TracesAndStats x_traces_param stats_param
                 else Stats stats_param))"
      by (rule simulator_single_row[OF t])
  next
    assume v: "1 \<le> num_trials \<and> dt \<noteq> 0 \<and> 2 \<le> py_int (T / dt) \<and> 0 \<le> T \<and> 0 \<le> nbins"
    show "simulator (PyFloat x) num_trials sigma T y0 a return_traces nbins dt dW =
            Inr (if return_traces
                 then TracesAndStats (param_traces a [x] (nat num_trials) sigma T y0 dt (dW 0))
                        [param_stats a [x] (nat num_trials) sigma T y0 (nat nbins) dt (dW 0)]
                 else Stats [param_stats a [x] (nat num_trials) sigma T y0 (nat nbins) dt (dW 0)])"
      using v by (intro simulator_one_parameter[OF f]) simp_all
    show "simulator (Tensor1 [x]) num_trials sigma T y0 a return_traces nbins dt dW =
            Inr (if return_traces
                 then TracesAndStats (param_traces a [x] (nat num_trials) sigma T y0 dt (dW 0))
                        [param_stats a [x] (nat num_trials) sigma T y0 (nat nbins) dt (dW 0)]
                 else Stats [param_stats a [x] (nat num_trials) sigma T y0 (nat nbins) dt (dW 0)])"
      using v by (intro simulator_one_parameter[OF t]) simp_all
  next
    assume "1 \<le> num_trials \<and> dt \<noteq> 0 \<and> 2 \<le> py_int (T / dt) \<and> length xs \<noteq> 1"
    then show "simulator (Tensor1 xs) num_trials sigma T y0 a return_traces nbins dt dW = Inl ValueError"
      by (intro simulator_wrong_dimension[OF t]) simp_all
  qed
qed

text \<open>The scenario of the specification without noise: the float 0.3 and the tensor of
  the one entry 0.3 give the summary vector of 50 decisions in one bin; the tensor of
  three entries is one row of three entries and the call fails.\<close>

theorem simulator_single_row_batch_witness:
  "coerce_parameters (PyFloat (3/10)) = Inr [[3/10]] \<and>
   coerce_parameters (Tensor1 [1/10, 1/5, 3/10]) = Inr [[1/10, 1/5, 3/10]] \<and>
   simulator (PyFloat (3/10)) 50 (1/5) 5 0 1 False 20 (1/100) no_noise =
     Inr (Stats [replicate 15 0 @ [50] @ replicate 3 0]) \<and>
   simulator (Tensor1 [3/10]) 50 (1/5) 5 0 1 False 20 (1/100) no_noise =
     Inr (Stats [replicate 15 0 @ [50] @ replicate 3 0]) \<and>
   simulator (Tensor1 [1/10, 1/5, 3/10]) 50 (1/5) 5 0 1 False 20 (1/100) no_noise = Inl ValueError"
proof -
  note w = simulator_single_row_batch[where x = "3/10" and xs = "[1/10, 1/5, 3/10]" and num_trials = 50
      and sigma = "1/5" and T = 5 and ?y0.0 = 0 and a = 1 and return_traces = False and nbins = 20
      and dt = "1/100" and dW = no_noise]
  have valid: "1 \<le> (50::int) \<and> (1/100::real) \<noteq> 0 \<and> 2 \<le> py_int (5 / (1/100)) \<and> (0::real) \<le> 5 \<and> (0::int) \<le> 20"
    by (simp add: py_int_def)
  have three: "1 \<le> (50::int) \<and> (1/100::real) \<noteq> 0 \<and> 2 \<le> py_int (5 / (1/100)) \<and>
      length [1/10, 1/5, 3/10 :: real] \<noteq> 1"
    by (simp add: py_int_def)
  note coerced = w[THEN conjunct1] w[THEN conjunct2, THEN conjunct1]
  note accepted = w[THEN conjunct2, THEN conjunct2, THEN conjunct2, THEN conjunct2, THEN conjunct1,
      THEN mp, OF valid]
  note refused = w[THEN conjunct2, THEN conjunct2, THEN conjunct2, THEN conjunct2, THEN conjunct2,
      THEN mp, OF three]
  show ?thesis
    using coerced accepted refused by (simp add: param_stats_no_noise)
qed

text \<open>The claim as stated fails: the call with a tensor of three entries and the default
  configuration is not accepted.\<close>

theorem tensor_of_three_entries_refused_counterexample:
  "simulator (Tensor1 [1/10, 1/5, 3/10]) 100 (1/5) 5 0 1 False 20 (1/100) no_noise = Inl ValueError"
  by (rule simulator_wrong_dimension[of _ "[1/10, 1/5, 3/10]"])
     (simp_all add: coerce_parameters_def py_int_def)

end
